theory Spec2Isabelle
  imports Complex_Main "HOL-Library.Code_Target_Numeral"
begin

section \<open>The products and posts API of server.js\<close>

text \<open>
  A shallow embedding of \<^verbatim>\<open>src/MONGO-PRAKTEK/API/server.js\<close>: the payload validator
  \<^verbatim>\<open>validateProduk\<close> and the Express handlers of the two collections. The JavaScript
  primitives the code calls (truthiness, \<^verbatim>\<open>trim\<close>, \<^verbatim>\<open>isNaN\<close>, \<^verbatim>\<open>parseInt\<close>,
  \<^verbatim>\<open>parseFloat\<close>) follow ECMAScript; the document store behind \<^verbatim>\<open>db.collection\<close>
  is a list of documents per collection with the operations the handlers issue.
\<close>

subsection \<open>JavaScript values\<close>

text \<open>
  A finite number is a rational; \<open>NaN\<close> and the infinities are values of their own. The
  numbers of JavaScript are the IEEE 754 doubles: every conversion from text and every
  arithmetic operation below rounds its exact result to the nearest double with
  \<open>to_double\<close>. The sign of zero is not modelled.
\<close>

datatype jsnum = Fin rat | NaN | PosInf | NegInf

text \<open>
  Strings are lists of code units below 256. \<open>JObject s\<close> is an array or a plain object;
  the primitives below observe such a value only through \<open>String(v)\<close>, which is \<open>s\<close>.
  \<open>JDate None\<close> is the Invalid Date, \<open>JDate (Some t)\<close> the date \<open>t\<close> milliseconds after the
  epoch. \<open>JOid h\<close> is the ObjectId with the 24 hexadecimal digits \<open>h\<close>.
\<close>

datatype jsval =
    JUndefined
  | JNull
  | JBool bool
  | JNum jsnum
  | JStr string
  | JDate "int option"
  | JOid string
  | JObject string

datatype js_error = TypeError | MongoError nat

type_synonym jsobj = "(string \<times> jsval) list"

definition get :: "jsobj \<Rightarrow> string \<Rightarrow> jsval" where
  \<comment> \<open>property access \<^verbatim>\<open>data.k\<close>: a missing property reads as undefined\<close>
  "get data k = (case map_of data k of None \<Rightarrow> JUndefined | Some v \<Rightarrow> v)"

fun truthy :: "jsval \<Rightarrow> bool" where
  "truthy JUndefined = False"
| "truthy JNull = False"
| "truthy (JBool b) = b"
| "truthy (JNum (Fin r)) = (r \<noteq> 0)"
| "truthy (JNum NaN) = False"
| "truthy (JNum PosInf) = True"
| "truthy (JNum NegInf) = True"
| "truthy (JStr s) = (s \<noteq> [])"
| "truthy (JDate t) = True"
| "truthy (JOid h) = True"
| "truthy (JObject s) = True"

definition js_not :: "jsval \<Rightarrow> bool" where
  \<comment> \<open>the operator \<^verbatim>\<open>!v\<close>\<close>
  "js_not v = (\<not> truthy v)"

subsection \<open>Strings: trim\<close>

definition isWhiteSpace :: "char \<Rightarrow> bool" where
  \<comment> \<open>tab, line feed, vertical tab, form feed, carriage return, space, no-break space\<close>
  "isWhiteSpace c = (of_char c \<in> {9, 10, 11, 12, 13, 32, 160 :: nat})"

definition trimStart :: "string \<Rightarrow> string" where
  "trimStart s = dropWhile isWhiteSpace s"

definition trim :: "string \<Rightarrow> string" where
  "trim s = rev (dropWhile isWhiteSpace (rev (dropWhile isWhiteSpace s)))"

fun call_trim :: "jsval \<Rightarrow> js_error + string" where
  \<comment> \<open>the method call \<^verbatim>\<open>v.trim()\<close>: only a string has the method\<close>
  "call_trim (JStr s) = Inr (trim s)"
| "call_trim v = Inl TypeError"

subsection \<open>Numbers: comparison, Number, parseFloat, parseInt\<close>

fun js_lt :: "jsnum \<Rightarrow> jsnum \<Rightarrow> bool" where
  "js_lt NaN y = False"
| "js_lt x NaN = False"
| "js_lt (Fin a) (Fin b) = (a < b)"
| "js_lt (Fin a) PosInf = True"
| "js_lt (Fin a) NegInf = False"
| "js_lt PosInf y = False"
| "js_lt NegInf NegInf = False"
| "js_lt NegInf y = True"

fun js_le :: "jsnum \<Rightarrow> jsnum \<Rightarrow> bool" where
  "js_le NaN y = False"
| "js_le x NaN = False"
| "js_le (Fin a) (Fin b) = (a \<le> b)"
| "js_le (Fin a) PosInf = True"
| "js_le (Fin a) NegInf = False"
| "js_le PosInf PosInf = True"
| "js_le PosInf y = False"
| "js_le NegInf y = True"

definition js_gt :: "jsnum \<Rightarrow> jsnum \<Rightarrow> bool" where
  "js_gt x y = js_lt y x"

text \<open>
  Rounding to a double, to nearest and ties to even: a positive \<open>a\<close> with
  \<open>2^e \<le> a < 2^(e+1)\<close> is rounded to a multiple of \<open>2^(e-52)\<close>, of \<open>2^-1074\<close> below the
  normal range, and a result from \<open>2^1024\<close> up is infinite.
\<close>

fun log2floor :: "nat \<Rightarrow> nat" where
  \<comment> \<open>the position of the leading bit of a positive number\<close>
  "log2floor n = (if n < 2 then 0 else Suc (log2floor (n div 2)))"

declare log2floor.simps [simp del]

definition pow2 :: "int \<Rightarrow> rat" where
  "pow2 e = (if 0 \<le> e then 2 ^ nat e else 1 / 2 ^ nat (- e))"

definition binade :: "rat \<Rightarrow> int" where
  \<comment> \<open>the exponent \<open>e\<close> with \<open>2^e \<le> a < 2^(e+1)\<close>, for a positive \<open>a\<close>\<close>
  "binade a = (if 1 \<le> a then int (log2floor (nat \<lfloor>a\<rfloor>))
               else - int (Suc (log2floor (nat (\<lceil>1 / a\<rceil> - 1)))))"

definition round_half_even :: "rat \<Rightarrow> int" where
  "round_half_even x =
     (let f = \<lfloor>x\<rfloor>; d = x - of_int f
      in if d < 1 / 2 then f else if 1 / 2 < d then f + 1 else if even f then f else f + 1)"

definition to_double :: "rat \<Rightarrow> jsnum" where
  "to_double r =
     (if r = 0 then Fin 0
      else (let a = \<bar>r\<bar>;
                q = pow2 (max (binade a) (- 1022) - 52);
                v = of_int (round_half_even (a / q)) * q
            in if 2 ^ 1024 \<le> v then (if r < 0 then NegInf else PosInf)
               else Fin (if r < 0 then - v else v)))"

definition isDigit :: "char \<Rightarrow> bool" where
  "isDigit c = (48 \<le> (of_char c :: nat) \<and> (of_char c :: nat) \<le> 57)"

definition hexDigit :: "char \<Rightarrow> nat option" where
  "hexDigit c =
     (let n = (of_char c :: nat) in
      if 48 \<le> n \<and> n \<le> 57 then Some (n - 48)
      else if 97 \<le> n \<and> n \<le> 102 then Some (n - 87)
      else if 65 \<le> n \<and> n \<le> 70 then Some (n - 55)
      else None)"

definition isHexDigit :: "char \<Rightarrow> bool" where
  "isHexDigit c = (hexDigit c \<noteq> None)"

definition radixVal :: "nat \<Rightarrow> string \<Rightarrow> nat" where
  \<comment> \<open>the value of a run of digits in the given radix\<close>
  "radixVal radix ds = foldl (\<lambda>a c. radix * a + (case hexDigit c of None \<Rightarrow> 0 | Some d \<Rightarrow> d)) 0 ds"

definition pow10 :: "int \<Rightarrow> rat" where
  "pow10 e = (if 0 \<le> e then 10 ^ nat e else 1 / 10 ^ nat (- e))"

definition scanSign :: "string \<Rightarrow> bool \<times> string" where
  \<comment> \<open>an optional sign: whether it is a minus, and the rest\<close>
  "scanSign s =
     (case s of
        [] \<Rightarrow> (False, s)
      | c # r \<Rightarrow> if c = CHR ''-'' then (True, r) else if c = CHR ''+'' then (False, r) else (False, s))"

definition scanExponent :: "string \<Rightarrow> int \<times> string" where
  \<comment> \<open>an optional exponent part \<^verbatim>\<open>e[+-]digits\<close>: taken only when it is complete\<close>
  "scanExponent s =
     (case s of
        [] \<Rightarrow> (0, s)
      | c # r \<Rightarrow>
          if c = CHR ''e'' \<or> c = CHR ''E'' then
            (let (neg, r1) = scanSign r; ds = takeWhile isDigit r1 in
             if ds = [] then (0, s)
             else ((if neg then - int (radixVal 10 ds) else int (radixVal 10 ds)),
                   dropWhile isDigit r1))
          else (0, s))"

definition scanDecimal :: "string \<Rightarrow> (rat \<times> string) option" where
  \<comment> \<open>the longest unsigned decimal literal at the head of the string, and the rest; the
      value is the exact one of the digits (an engine may read the digits after the
      twentieth as zeros)\<close>
  "scanDecimal s =
     (let ip = takeWhile isDigit s;
          r1 = dropWhile isDigit s;
          hasDot = (r1 \<noteq> [] \<and> hd r1 = CHR ''.'');
          fp = (if hasDot then takeWhile isDigit (tl r1) else []);
          r2 = (if hasDot then dropWhile isDigit (tl r1) else r1)
      in if ip = [] \<and> fp = [] then None
         else (let (e, r3) = scanExponent r2
               in Some (of_nat (radixVal 10 (ip @ fp)) * pow10 (e - int (length fp)), r3)))"

definition scanStrDecimalLiteral :: "string \<Rightarrow> (jsnum \<times> string) option" where
  \<comment> \<open>a signed decimal literal or Infinity at the head of the string, and the rest\<close>
  "scanStrDecimalLiteral s =
     (let (neg, r) = scanSign s in
      if take 8 r = ''Infinity'' then Some (if neg then NegInf else PosInf, drop 8 r)
      else (case scanDecimal r of
              None \<Rightarrow> None
            | Some (v, rest) \<Rightarrow> Some (to_double (if neg then - v else v), rest)))"

definition scanRadixLiteral :: "string \<Rightarrow> jsnum option" where
  \<comment> \<open>a whole string \<^verbatim>\<open>0x..\<close>, \<^verbatim>\<open>0o..\<close> or \<^verbatim>\<open>0b..\<close>\<close>
  "scanRadixLiteral t =
     (let p = take 2 t; ds = drop 2 t;
          radix = (if p = ''0x'' \<or> p = ''0X'' then 16
                   else if p = ''0o'' \<or> p = ''0O'' then 8
                   else if p = ''0b'' \<or> p = ''0B'' then 2 else (0::nat))
      in if radix = 0 then None
         else if ds \<noteq> [] \<and> list_all (\<lambda>c. case hexDigit c of None \<Rightarrow> False | Some d \<Rightarrow> d < radix) ds
         then Some (to_double (of_nat (radixVal radix ds)))
         else Some NaN)"

definition StringToNumber :: "string \<Rightarrow> jsnum" where
  \<comment> \<open>\<^verbatim>\<open>Number(s)\<close>: the whole trimmed string is a numeric literal, or the result is NaN\<close>
  "StringToNumber s =
     (let t = trim s in
      if t = [] then Fin 0
      else (case scanRadixLiteral t of
              Some v \<Rightarrow> v
            | None \<Rightarrow>
               (case scanStrDecimalLiteral t of
                  Some (v, []) \<Rightarrow> v
                | _ \<Rightarrow> NaN)))"

definition parseFloat_str :: "string \<Rightarrow> jsnum" where
  \<comment> \<open>the longest decimal literal after leading white space; the rest is ignored\<close>
  "parseFloat_str s =
     (case scanStrDecimalLiteral (trimStart s) of None \<Rightarrow> NaN | Some (v, rest) \<Rightarrow> v)"

definition parseInt_str :: "string \<Rightarrow> jsnum" where
  \<comment> \<open>no radix argument: radix 16 after \<^verbatim>\<open>0x\<close>, else 10; the digits at the head count,
      and their value is rounded to a double\<close>
  "parseInt_str s =
     (let (neg, r) = scanSign (trimStart s);
          hex = (take 2 r = ''0x'' \<or> take 2 r = ''0X'');
          ds = (if hex then takeWhile isHexDigit (drop 2 r) else takeWhile isDigit r);
          n = radixVal (if hex then 16 else 10) ds
      in if ds = [] then NaN else to_double (if neg then - of_nat n else of_nat n))"

fun leadDigit :: "nat \<Rightarrow> nat" where
  "leadDigit n = (if n < 10 then n else leadDigit (n div 10))"

fun numDigits :: "nat \<Rightarrow> nat" where
  "numDigits n = (if n < 10 then 1 else Suc (numDigits (n div 10)))"

declare leadDigit.simps [simp del] numDigits.simps [simp del]

definition firstDigit :: "rat \<Rightarrow> nat" where
  \<comment> \<open>the first significant decimal digit of a positive number\<close>
  "firstDigit a = leadDigit (nat \<lfloor>a * 10 ^ numDigits (nat \<lceil>1 / a\<rceil>)\<rfloor>)"

definition parseInt_num :: "jsnum \<Rightarrow> jsnum" where
  \<comment> \<open>\<^verbatim>\<open>parseInt(x)\<close> reads \<^verbatim>\<open>String(x)\<close>: decimal notation for a magnitude from \<open>10^-6\<close> up to
      \<open>10^21\<close> (the integer part is read), exponent notation elsewhere (the digit before the
      point or the \<^verbatim>\<open>e\<close> is read); \<^verbatim>\<open>"NaN"\<close> and \<^verbatim>\<open>"Infinity"\<close> have no digit. The integer
      part of a double is a double, so nothing is rounded here\<close>
  "parseInt_num x =
     (case x of
        Fin r \<Rightarrow>
          if r = 0 then Fin 0
          else if 10 ^ 21 \<le> \<bar>r\<bar> \<or> \<bar>r\<bar> < 1 / 10 ^ 6
          then Fin (if r < 0 then - of_nat (firstDigit \<bar>r\<bar>) else of_nat (firstDigit \<bar>r\<bar>))
          else Fin (if r < 0 then of_int \<lceil>r\<rceil> else of_int \<lfloor>r\<rfloor>)
      | _ \<Rightarrow> NaN)"

fun ToNumber :: "jsval \<Rightarrow> jsnum" where
  "ToNumber JUndefined = NaN"
| "ToNumber JNull = Fin 0"
| "ToNumber (JBool b) = Fin (if b then 1 else 0)"
| "ToNumber (JNum x) = x"
| "ToNumber (JStr s) = StringToNumber s"
| "ToNumber (JDate None) = NaN"
| "ToNumber (JDate (Some t)) = Fin (of_int t)"
| "ToNumber (JOid h) = StringToNumber h"
| "ToNumber (JObject s) = StringToNumber s"

definition isNaN :: "jsval \<Rightarrow> bool" where
  "isNaN v = (ToNumber v = NaN)"

fun parseFloat :: "jsval \<Rightarrow> jsnum" where
  \<comment> \<open>\<^verbatim>\<open>parseFloat(v)\<close> reads \<^verbatim>\<open>String(v)\<close>; for a number that gives the number back, and the
      text of a date starts with a letter\<close>
  "parseFloat (JNum x) = x"
| "parseFloat (JStr s) = parseFloat_str s"
| "parseFloat JUndefined = parseFloat_str ''undefined''"
| "parseFloat JNull = parseFloat_str ''null''"
| "parseFloat (JBool b) = parseFloat_str (if b then ''true'' else ''false'')"
| "parseFloat (JDate t) = NaN"
| "parseFloat (JOid h) = parseFloat_str h"
| "parseFloat (JObject s) = parseFloat_str s"

fun parseInt :: "jsval \<Rightarrow> jsnum" where
  "parseInt (JNum x) = parseInt_num x"
| "parseInt (JStr s) = parseInt_str s"
| "parseInt JUndefined = parseInt_str ''undefined''"
| "parseInt JNull = parseInt_str ''null''"
| "parseInt (JBool b) = parseInt_str (if b then ''true'' else ''false'')"
| "parseInt (JDate t) = NaN"
| "parseInt (JOid h) = parseInt_str h"
| "parseInt (JObject s) = parseInt_str s"

subsection \<open>The payload validator\<close>

fun and_then :: "'e + 'a \<Rightarrow> ('a \<Rightarrow> 'e + 'b) \<Rightarrow> 'e + 'b" where
  \<comment> \<open>sequencing: an exception ends the computation\<close>
  "and_then (Inl e) f = Inl e"
| "and_then (Inr a) f = f a"

fun or_else :: "bool \<Rightarrow> js_error + bool \<Rightarrow> js_error + bool" where
  \<comment> \<open>\<^verbatim>\<open>a || b\<close>: the right operand is evaluated only when the left one is false\<close>
  "or_else True b = Inr True"
| "or_else False b = b"

definition push_if :: "js_error + bool \<Rightarrow> string \<Rightarrow> string list \<Rightarrow> js_error + string list" where
  \<comment> \<open>\<^verbatim>\<open>if (cond) errors.push(msg)\<close>\<close>
  "push_if cond msg errors = and_then cond (\<lambda>b. Inr (if b then errors @ [msg] else errors))"

definition harga_cond :: "jsobj \<Rightarrow> bool" where
  \<comment> \<open>the condition of the fourth \<^verbatim>\<open>if\<close> of \<^verbatim>\<open>validateProduk\<close>\<close>
  "harga_cond data = (js_not (get data ''harga'') \<or> isNaN (get data ''harga'')
             \<or> js_le (parseFloat (get data ''harga'')) (Fin 0))"

definition stok_cond :: "jsobj \<Rightarrow> bool" where
  \<comment> \<open>the condition of the fifth \<^verbatim>\<open>if\<close> of \<^verbatim>\<open>validateProduk\<close>\<close>
  "stok_cond data = (get data ''stok'' = JUndefined \<or> isNaN (get data ''stok'')
             \<or> js_lt (parseInt (get data ''stok'')) (Fin 0))"

definition msg_kode :: string where "msg_kode = ''Kode produk wajib diisi''"
definition msg_nama :: string where "msg_nama = ''Nama produk wajib diisi minimal 3 karakter''"
definition msg_kategori :: string where "msg_kategori = ''Kategori wajib diisi''"
definition msg_harga :: string where "msg_harga = ''Harga harus berupa angka dan lebih besar dari 0''"
definition msg_stok :: string where "msg_stok = ''Stok harus berupa angka dan tidak boleh negatif''"

definition validateProduk :: "jsobj \<Rightarrow> js_error + string list" where
  "validateProduk data =
     and_then (push_if
       (or_else (js_not (get data ''kode_produk''))
          (and_then (call_trim (get data ''kode_produk'')) (\<lambda>t. Inr (t = ''''))))
       msg_kode []) (\<lambda>errors.
     and_then (push_if
       (or_else (js_not (get data ''nama_produk''))
          (and_then (call_trim (get data ''nama_produk'')) (\<lambda>t. Inr (length t < 3))))
       msg_nama errors) (\<lambda>errors.
     and_then (push_if
       (or_else (js_not (get data ''kategori''))
          (and_then (call_trim (get data ''kategori'')) (\<lambda>t. Inr (t = ''''))))
       msg_kategori errors) (\<lambda>errors.
     and_then (push_if
       (Inr (harga_cond data))
       msg_harga errors) (\<lambda>errors.
     and_then (push_if
       (Inr (stok_cond data))
       msg_stok errors) (\<lambda>errors.
     Inr errors)))))"

text \<open>
  The five rules in the specification's words, for stating what the validator accepts:
  a text field is present and not blank after trimming (at least three characters for
  the name), the price is a number above zero, the stock is an integer number from zero.
\<close>

fun is_text :: "jsval \<Rightarrow> bool" where
  \<comment> \<open>a string, or a value \<^verbatim>\<open>!v\<close> holds for (undefined, null, false, 0, NaN)\<close>
  "is_text (JStr s) = True"
| "is_text v = js_not v"

fun nonblank :: "jsval \<Rightarrow> bool" where
  "nonblank (JStr s) = (trim s \<noteq> [])"
| "nonblank v = False"

fun at_least3 :: "jsval \<Rightarrow> bool" where
  "at_least3 (JStr s) = (3 \<le> length (trim s))"
| "at_least3 v = False"

fun positive_number :: "jsval \<Rightarrow> bool" where
  "positive_number (JNum (Fin r)) = (0 < r)"
| "positive_number v = False"

fun nonneg_integer :: "jsval \<Rightarrow> bool" where
  "nonneg_integer (JNum (Fin r)) = (of_int \<lfloor>r\<rfloor> = r \<and> 0 \<le> r)"
| "nonneg_integer v = False"

definition rules_ok :: "jsobj \<Rightarrow> bool" where
  "rules_ok data =
     (nonblank (get data ''kode_produk'') \<and> at_least3 (get data ''nama_produk'')
      \<and> nonblank (get data ''kategori'') \<and> positive_number (get data ''harga'')
      \<and> nonneg_integer (get data ''stok''))"

subsection \<open>Number arithmetic of the pagination\<close>

fun js_sign :: "jsnum \<Rightarrow> int" where
  "js_sign (Fin a) = (if a < 0 then - 1 else if a = 0 then 0 else 1)"
| "js_sign PosInf = 1"
| "js_sign NegInf = - 1"
| "js_sign NaN = 0"

definition inf_of_sign :: "int \<Rightarrow> jsnum" where
  "inf_of_sign s = (if s = 0 then NaN else if 0 < s then PosInf else NegInf)"

fun js_sub :: "jsnum \<Rightarrow> jsnum \<Rightarrow> jsnum" where
  "js_sub NaN y = NaN"
| "js_sub x NaN = NaN"
| "js_sub (Fin a) (Fin b) = to_double (a - b)"
| "js_sub (Fin a) PosInf = NegInf"
| "js_sub (Fin a) NegInf = PosInf"
| "js_sub PosInf PosInf = NaN"
| "js_sub PosInf y = PosInf"
| "js_sub NegInf NegInf = NaN"
| "js_sub NegInf y = NegInf"

fun js_mul :: "jsnum \<Rightarrow> jsnum \<Rightarrow> jsnum" where
  "js_mul NaN y = NaN"
| "js_mul x NaN = NaN"
| "js_mul (Fin a) (Fin b) = to_double (a * b)"
| "js_mul x y = inf_of_sign (js_sign x * js_sign y)"

fun js_div :: "jsnum \<Rightarrow> jsnum \<Rightarrow> jsnum" where
  \<comment> \<open>a zero divisor counts as positive\<close>
  "js_div NaN y = NaN"
| "js_div x NaN = NaN"
| "js_div (Fin a) (Fin b) = (if b = 0 then inf_of_sign (js_sign (Fin a)) else to_double (a / b))"
| "js_div (Fin a) y = Fin 0"
| "js_div x (Fin b) = inf_of_sign (js_sign x * (if b < 0 then - 1 else 1))"
| "js_div x y = NaN"

fun js_ceil :: "jsnum \<Rightarrow> jsnum" where
  \<comment> \<open>\<^verbatim>\<open>Math.ceil\<close>\<close>
  "js_ceil (Fin a) = Fin (of_int \<lceil>a\<rceil>)"
| "js_ceil x = x"

fun show_nat :: "nat \<Rightarrow> string" where
  \<comment> \<open>the decimal digits of a length, for the template strings\<close>
  "show_nat n = (if n < 10 then [char_of (48 + n)]
                 else show_nat (n div 10) @ [char_of (48 + n mod 10)])"

declare show_nat.simps [simp del]

subsection \<open>The document store\<close>

text \<open>
  The store is the external collaborator behind \<^verbatim>\<open>db.collection(...)\<close>. A collection is
  the list of its documents in insertion order; a document is the list of its fields,
  \<^verbatim>\<open>_id\<close> among them. Every operation a handler issues is appended to the log \<open>ops\<close>, so
  that a handler that leaves the state as it was has not reached the store. Requests are
  handled one at a time and the store answers every operation; it fails only for the
  causes written out below (error code 11000 for a duplicate key, 66 for a write to
  \<^verbatim>\<open>_id\<close>, 2 for a skip or limit it cannot use).
\<close>

type_synonym doc = jsobj

datatype cond =
    IsEq jsval
  | NotEq jsval
  | Matches string
  | Between "jsval option" "jsval option"

datatype clause = Where string cond | AnyOf "clause list"

type_synonym query_filter = "clause list"

datatype coll = Posts | Produk

datatype store_op =
    FindOne coll query_filter
  | Find coll query_filter string "jsnum option" jsnum
  | CountDocuments coll query_filter
  | InsertOne coll doc
  | UpdateOne coll query_filter jsobj
  | DeleteOne coll query_filter

record db =
  posts :: "doc list"
  produk :: "doc list"
  ops :: "store_op list"

definition docs_of :: "coll \<Rightarrow> db \<Rightarrow> doc list" where
  "docs_of c s = (case c of Posts \<Rightarrow> posts s | Produk \<Rightarrow> produk s)"

definition set_docs :: "coll \<Rightarrow> doc list \<Rightarrow> db \<Rightarrow> db" where
  "set_docs c ds s = (case c of Posts \<Rightarrow> s\<lparr>posts := ds\<rparr> | Produk \<Rightarrow> s\<lparr>produk := ds\<rparr>)"

definition logged :: "store_op \<Rightarrow> db \<Rightarrow> db" where
  "logged x s = s\<lparr>ops := ops s @ [x]\<rparr>"

paragraph \<open>Comparison and matching\<close>

fun bson_rank :: "jsval \<Rightarrow> nat" where
  \<comment> \<open>the order of the types; a missing field sorts as null\<close>
  "bson_rank JUndefined = 1"
| "bson_rank JNull = 1"
| "bson_rank (JNum x) = 2"
| "bson_rank (JStr s) = 3"
| "bson_rank (JObject s) = 4"
| "bson_rank (JOid h) = 5"
| "bson_rank (JBool b) = 6"
| "bson_rank (JDate t) = 7"

fun num_le :: "jsnum \<Rightarrow> jsnum \<Rightarrow> bool" where
  \<comment> \<open>the store's order of numbers: NaN below every number\<close>
  "num_le NaN y = True"
| "num_le x NaN = False"
| "num_le NegInf y = True"
| "num_le x NegInf = False"
| "num_le x PosInf = True"
| "num_le PosInf y = False"
| "num_le (Fin a) (Fin b) = (a \<le> b)"

fun str_le :: "string \<Rightarrow> string \<Rightarrow> bool" where
  "str_le [] ys = True"
| "str_le (x # xs) [] = False"
| "str_le (x # xs) (y # ys) = ((of_char x :: nat) < of_char y \<or> (x = y \<and> str_le xs ys))"

definition date_ms :: "int option \<Rightarrow> int" where
  \<comment> \<open>the driver writes the time value of a date; for an Invalid Date it writes 0\<close>
  "date_ms t = (case t of None \<Rightarrow> 0 | Some ms \<Rightarrow> ms)"

fun bson_le :: "jsval \<Rightarrow> jsval \<Rightarrow> bool" where
  "bson_le (JNum a) (JNum b) = num_le a b"
| "bson_le (JStr a) (JStr b) = str_le a b"
| "bson_le (JOid a) (JOid b) = str_le a b"
| "bson_le (JBool a) (JBool b) = (a \<le> b)"
| "bson_le (JDate a) (JDate b) = (date_ms a \<le> date_ms b)"
| "bson_le x y = (bson_rank x \<le> bson_rank y)"

definition lowerChar :: "char \<Rightarrow> char" where
  "lowerChar c = (if 65 \<le> (of_char c :: nat) \<and> (of_char c :: nat) \<le> 90
                  then char_of ((of_char c :: nat) + 32) else c)"

fun starts_with :: "string \<Rightarrow> string \<Rightarrow> bool" where
  "starts_with [] s = True"
| "starts_with (p # ps) [] = False"
| "starts_with (p # ps) (c # cs) = (p = c \<and> starts_with ps cs)"

fun contains :: "string \<Rightarrow> string \<Rightarrow> bool" where
  "contains p [] = (p = [])"
| "contains p (c # cs) = (starts_with p (c # cs) \<or> contains p cs)"

fun matches_cond :: "cond \<Rightarrow> jsval \<Rightarrow> bool" where
  \<comment> \<open>\<^verbatim>\<open>$regex\<close> with option \<^verbatim>\<open>i\<close>: the pattern is read as plain text and looked for in a
      string field without regard to case; \<^verbatim>\<open>$gte\<close> and \<^verbatim>\<open>$lte\<close> compare within one type\<close>
  "matches_cond (IsEq v) x = (x = v)"
| "matches_cond (NotEq v) x = (x \<noteq> v)"
| "matches_cond (Matches p) (JStr s) = contains (map lowerChar p) (map lowerChar s)"
| "matches_cond (Matches p) x = False"
| "matches_cond (Between lo hi) x =
     ((case lo of None \<Rightarrow> True | Some b \<Rightarrow> bson_rank x = bson_rank b \<and> bson_le b x)
      \<and> (case hi of None \<Rightarrow> True | Some b \<Rightarrow> bson_rank x = bson_rank b \<and> bson_le x b))"

fun matches_clause :: "clause \<Rightarrow> doc \<Rightarrow> bool" where
  "matches_clause (Where k c) d = matches_cond c (get d k)"
| "matches_clause (AnyOf cs) d = list_ex (\<lambda>c. matches_clause c d) cs"

definition matches :: "query_filter \<Rightarrow> doc \<Rightarrow> bool" where
  \<comment> \<open>the clauses of a filter are joined by and\<close>
  "matches f d = list_all (\<lambda>c. matches_clause c d) f"

paragraph \<open>Sorting\<close>

fun insert_sorted :: "('a \<Rightarrow> 'a \<Rightarrow> bool) \<Rightarrow> 'a \<Rightarrow> 'a list \<Rightarrow> 'a list" where
  "insert_sorted le x [] = [x]"
| "insert_sorted le x (y # ys) = (if le x y then x # y # ys else y # insert_sorted le x ys)"

definition sort_by :: "('a \<Rightarrow> 'a \<Rightarrow> bool) \<Rightarrow> 'a list \<Rightarrow> 'a list" where
  "sort_by le xs = foldr (insert_sorted le) xs []"

definition sort_desc :: "string \<Rightarrow> doc list \<Rightarrow> doc list" where
  \<comment> \<open>\<^verbatim>\<open>.sort({k: -1})\<close>: the largest value of the field first\<close>
  "sort_desc k ds = sort_by (\<lambda>a b. bson_le (get b k) (get a k)) ds"

paragraph \<open>Operations\<close>

definition as_count :: "jsnum \<Rightarrow> int option" where
  \<comment> \<open>a number the store takes as a count: a whole number\<close>
  "as_count x = (case x of Fin r \<Rightarrow> if of_int \<lfloor>r\<rfloor> = r then Some \<lfloor>r\<rfloor> else None | _ \<Rightarrow> None)"

definition find_first :: "('a \<Rightarrow> bool) \<Rightarrow> 'a list \<Rightarrow> 'a option" where
  "find_first P xs = (case filter P xs of [] \<Rightarrow> None | x # r \<Rightarrow> Some x)"

fun replace_first :: "('a \<Rightarrow> bool) \<Rightarrow> 'a \<Rightarrow> 'a list \<Rightarrow> 'a list" where
  "replace_first P y [] = []"
| "replace_first P y (x # xs) = (if P x then y # xs else x # replace_first P y xs)"

fun remove_first :: "('a \<Rightarrow> bool) \<Rightarrow> 'a list \<Rightarrow> 'a list" where
  "remove_first P [] = []"
| "remove_first P (x # xs) = (if P x then xs else x # remove_first P xs)"

fun set_field :: "string \<Rightarrow> jsval \<Rightarrow> jsobj \<Rightarrow> jsobj" where
  \<comment> \<open>assignment to a property: in place when the object has it, at the end otherwise\<close>
  "set_field k v [] = [(k, v)]"
| "set_field k v ((k', v') # r) = (if k' = k then (k, v) # r else (k', v') # set_field k v r)"

definition set_fields :: "jsobj \<Rightarrow> jsobj \<Rightarrow> jsobj" where
  \<comment> \<open>\<^verbatim>\<open>$set\<close>, and the object spread \<^verbatim>\<open>{...a, ...b}\<close>: the fields of \<open>upd\<close> written into \<open>d\<close>\<close>
  "set_fields upd d = foldl (\<lambda>acc (k, v). set_field k v acc) d upd"

definition findOne :: "coll \<Rightarrow> query_filter \<Rightarrow> db \<Rightarrow> doc option \<times> db" where
  "findOne c f s = (find_first (matches f) (docs_of c s), logged (FindOne c f) s)"

definition coll_find ::
  "coll \<Rightarrow> query_filter \<Rightarrow> string \<Rightarrow> jsnum option \<Rightarrow> jsnum \<Rightarrow> db \<Rightarrow> (js_error + doc list) \<times> db" where
  \<comment> \<open>\<^verbatim>\<open>find(f).sort({k: -1}).skip(n).limit(m).toArray()\<close>: a skip below zero is refused,
      limit 0 is no limit, a limit below zero counts as its absolute value\<close>
  "coll_find c f k skipN limitN s =
     (let s1 = logged (Find c f k skipN limitN) s;
          found = sort_desc k (filter (matches f) (docs_of c s));
          n = (case skipN of None \<Rightarrow> Some 0 | Some x \<Rightarrow> as_count x)
      in case (n, as_count limitN) of
           (Some n, Some m) \<Rightarrow>
             if n < 0 then (Inl (MongoError 2), s1)
             else if m = 0 then (Inr (drop (nat n) found), s1)
             else (Inr (take (nat \<bar>m\<bar>) (drop (nat n) found)), s1)
         | _ \<Rightarrow> (Inl (MongoError 2), s1))"

definition countDocuments :: "coll \<Rightarrow> query_filter \<Rightarrow> db \<Rightarrow> nat \<times> db" where
  "countDocuments c f s = (length (filter (matches f) (docs_of c s)), logged (CountDocuments c f) s)"

definition unique_clash :: "coll \<Rightarrow> doc \<Rightarrow> doc list \<Rightarrow> bool" where
  \<comment> \<open>the unique indexes: \<^verbatim>\<open>_id\<close> in both collections, \<^verbatim>\<open>kode_produk\<close> in the products\<close>
  "unique_clash c d others =
     (list_ex (\<lambda>x. get x ''_id'' = get d ''_id'') others
      \<or> (c = Produk \<and> list_ex (\<lambda>x. get x ''kode_produk'' = get d ''kode_produk'') others))"

definition insertOne :: "coll \<Rightarrow> string \<Rightarrow> doc \<Rightarrow> db \<Rightarrow> (js_error + jsval) \<times> db" where
  \<comment> \<open>the driver gives the document the fresh identifier \<open>newId\<close> when it has none; the
      result is \<^verbatim>\<open>insertedId\<close>\<close>
  "insertOne c newId d s =
     (let s1 = logged (InsertOne c d) s;
          d1 = (if map_of d ''_id'' = None then (''_id'', JOid newId) # d else d)
      in if unique_clash c d1 (docs_of c s) then (Inl (MongoError 11000), s1)
         else (Inr (get d1 ''_id''), set_docs c (docs_of c s @ [d1]) s1))"

definition updateOne :: "coll \<Rightarrow> query_filter \<Rightarrow> jsobj \<Rightarrow> db \<Rightarrow> (js_error + nat) \<times> db" where
  \<comment> \<open>\<^verbatim>\<open>updateOne(f, {$set: upd})\<close> on the first document that matches; the result is
      \<^verbatim>\<open>modifiedCount\<close>, 0 when the document is left as it was\<close>
  "updateOne c f upd s =
     (let s1 = logged (UpdateOne c f upd) s in
      case find_first (matches f) (docs_of c s) of
        None \<Rightarrow> (Inr 0, s1)
      | Some d \<Rightarrow>
          (let d1 = set_fields upd d in
           if get d1 ''_id'' \<noteq> get d ''_id'' then (Inl (MongoError 66), s1)
           else if d1 = d then (Inr 0, s1)
           else if c = Produk \<and> get d1 ''kode_produk'' \<noteq> get d ''kode_produk''
                   \<and> list_ex (\<lambda>x. get x ''kode_produk'' = get d1 ''kode_produk'') (docs_of c s)
                then (Inl (MongoError 11000), s1)
           else (Inr 1, set_docs c (replace_first (matches f) d1 (docs_of c s)) s1)))"

definition deleteOne :: "coll \<Rightarrow> query_filter \<Rightarrow> db \<Rightarrow> nat \<times> db" where
  \<comment> \<open>the result is \<^verbatim>\<open>deletedCount\<close>\<close>
  "deleteOne c f s =
     (let s1 = logged (DeleteOne c f) s in
      case find_first (matches f) (docs_of c s) of
        None \<Rightarrow> (0, s1)
      | Some d \<Rightarrow> (1, set_docs c (remove_first (matches f) (docs_of c s)) s1))"

paragraph \<open>Identifiers\<close>

definition ObjectId_isValid :: "string \<Rightarrow> bool" where
  \<comment> \<open>\<^verbatim>\<open>ObjectId.isValid(id)\<close> for a string: 24 hexadecimal digits\<close>
  "ObjectId_isValid i = (length i = 24 \<and> list_all isHexDigit i)"

definition ObjectId :: "string \<Rightarrow> jsval" where
  \<comment> \<open>\<^verbatim>\<open>new ObjectId(id)\<close>: the twelve bytes the digits stand for, whatever their case\<close>
  "ObjectId i = JOid (map lowerChar i)"

definition by_id :: "string \<Rightarrow> query_filter" where
  \<comment> \<open>the filter \<^verbatim>\<open>{ _id: new ObjectId(id) }\<close>\<close>
  "by_id i = [Where ''_id'' (IsEq (ObjectId i))]"

subsection \<open>Requests and responses\<close>

text \<open>
  \<^verbatim>\<open>req.query\<close> maps parameter names to strings, \<^verbatim>\<open>req.params.id\<close> is a string and
  \<^verbatim>\<open>req.body\<close> is the parsed JSON object. A response is the status code and the JSON
  body: \<^verbatim>\<open>success\<close>, \<^verbatim>\<open>message\<close> (empty where the body has none) and what else the body
  carries. The echo of the query parameters in a list response is left out.
\<close>

type_synonym query = "(string \<times> string) list"

definition param :: "query \<Rightarrow> string \<Rightarrow> jsval" where
  "param q k = (case map_of q k of None \<Rightarrow> JUndefined | Some s \<Rightarrow> JStr s)"

definition with_default :: "jsval \<Rightarrow> jsval \<Rightarrow> jsval" where
  \<comment> \<open>a destructuring default \<^verbatim>\<open>{ page = 1 }\<close>: taken when the property is undefined\<close>
  "with_default v d = (if v = JUndefined then d else v)"

fun str_of :: "jsval \<Rightarrow> string" where
  "str_of (JStr s) = s"
| "str_of v = []"

record pagination =
  current_page :: jsnum
  total_pages :: jsnum
  total_data :: nat
  per_page :: jsnum
  has_next :: bool
  has_prev :: bool

datatype content =
    NoContent
  | ErrorList "string list"
  | Caught js_error
  | Data "doc option"
  | DeletedData doc
  | Found "doc list" query_filter
  | Page "doc list" pagination

record response =
  status :: nat
  success :: bool
  message :: string
  content :: content

definition reply :: "nat \<Rightarrow> bool \<Rightarrow> string \<Rightarrow> content \<Rightarrow> response" where
  "reply c ok msg x = \<lparr>status = c, success = ok, message = msg, content = x\<rparr>"

definition page_info :: "jsnum \<Rightarrow> jsnum \<Rightarrow> nat \<Rightarrow> pagination" where
  \<comment> \<open>the \<^verbatim>\<open>pagination\<close> object, written the same way in both list handlers; the count
      of a collection is taken as it is, a number the store can hold being a double\<close>
  "page_info pageNum limitNum totalN =
     \<lparr>current_page = pageNum,
      total_pages = js_ceil (js_div (Fin (of_nat totalN)) limitNum),
      total_data = totalN,
      per_page = limitNum,
      has_next = js_lt pageNum (js_ceil (js_div (Fin (of_nat totalN)) limitNum)),
      has_prev = js_gt pageNum (Fin 1)\<rparr>"

subsection \<open>The handlers of the posts\<close>

definition posts_list_filter :: "query \<Rightarrow> query_filter" where
  "posts_list_filter q =
     (let search = param q ''search'' in
      if truthy search
      then [AnyOf [Where ''title'' (Matches (str_of search)),
                   Where ''content'' (Matches (str_of search)),
                   Where ''author'' (Matches (str_of search))]]
      else [])"

definition get_posts :: "query \<Rightarrow> db \<Rightarrow> response \<times> db" where
  \<comment> \<open>\<^verbatim>\<open>GET /posts\<close>\<close>
  "get_posts q s =
     (let pageNum = parseInt (with_default (param q ''page'') (JNum (Fin 1)));
          limitNum = parseInt (with_default (param q ''limit'') (JNum (Fin 10)));
          skipN = js_mul (js_sub pageNum (Fin 1)) limitNum;
          flt = posts_list_filter q
      in case coll_find Posts flt ''_id'' (Some skipN) limitNum s of
           (Inl err, s1) \<Rightarrow> (reply 500 False ''Gagal mengambil data posts'' (Caught err), s1)
         | (Inr found, s1) \<Rightarrow>
             (case countDocuments Posts flt s1 of
                (totalN, s2) \<Rightarrow>
                  (reply 200 True [] (Page found (page_info pageNum limitNum totalN)), s2)))"

definition get_posts_id :: "string \<Rightarrow> db \<Rightarrow> response \<times> db" where
  \<comment> \<open>\<^verbatim>\<open>GET /posts/:id\<close>\<close>
  "get_posts_id i s =
     (if \<not> ObjectId_isValid i then (reply 400 False ''ID post tidak valid'' NoContent, s)
      else case findOne Posts (by_id i) s of
             (None, s1) \<Rightarrow> (reply 404 False ''Post tidak ditemukan'' NoContent, s1)
           | (Some post, s1) \<Rightarrow> (reply 200 True [] (Data (Some post)), s1))"

definition posts_advanced_filter :: "(string \<Rightarrow> int option) \<Rightarrow> query \<Rightarrow> query_filter" where
  "posts_advanced_filter Date_parse q =
     (let title = param q ''title''; author = param q ''author''; contentP = param q ''content'';
          date_from = param q ''date_from''; date_to = param q ''date_to''
      in (if truthy title then [Where ''title'' (Matches (str_of title))] else [])
         @ (if truthy author then [Where ''author'' (Matches (str_of author))] else [])
         @ (if truthy contentP then [Where ''content'' (Matches (str_of contentP))] else [])
         @ (if truthy date_from \<or> truthy date_to
            then [Where ''created_at''
                    (Between (if truthy date_from then Some (JDate (Date_parse (str_of date_from))) else None)
                             (if truthy date_to then Some (JDate (Date_parse (str_of date_to))) else None))]
            else []))"

definition get_posts_search_advanced :: "(string \<Rightarrow> int option) \<Rightarrow> query \<Rightarrow> db \<Rightarrow> response \<times> db" where
  \<comment> \<open>\<^verbatim>\<open>GET /posts/search/advanced\<close>. What \<^verbatim>\<open>new Date(string)\<close> reads outside the ISO format is
      up to the engine: \<open>Date_parse\<close> is the engine's parser, \<open>None\<close> for a string it cannot
      read (the date is then the Invalid Date; the constructor does not throw)\<close>
  "get_posts_search_advanced Date_parse q s =
     (if js_not (param q ''title'') \<and> js_not (param q ''author'') \<and> js_not (param q ''content'')
         \<and> js_not (param q ''date_from'') \<and> js_not (param q ''date_to'')
      then (reply 400 False ''Minimal satu parameter pencarian harus diisi'' NoContent, s)
      else (let flt = posts_advanced_filter Date_parse q in
            case coll_find Posts flt ''_id'' None (Fin 50) s of
              (Inl err, s1) \<Rightarrow> (reply 500 False ''Gagal mencari posts'' (Caught err), s1)
            | (Inr found, s1) \<Rightarrow>
                (reply 200 True (''Ditemukan '' @ show_nat (length found) @ '' posts'')
                   (Found found flt), s1)))"

definition put_posts_id :: "int \<Rightarrow> string \<Rightarrow> jsobj \<Rightarrow> db \<Rightarrow> response \<times> db" where
  \<comment> \<open>\<^verbatim>\<open>PUT /posts/:id\<close>; \<open>now\<close> is what \<^verbatim>\<open>new Date()\<close> reads\<close>
  "put_posts_id now i updateData s =
     (if \<not> ObjectId_isValid i then (reply 400 False ''ID post tidak valid'' NoContent, s)
      else if length updateData = 0
      then (reply 400 False ''Data untuk update tidak boleh kosong'' NoContent, s)
      else case findOne Posts (by_id i) s of
             (None, s1) \<Rightarrow> (reply 404 False ''Post tidak ditemukan'' NoContent, s1)
           | (Some existingPost, s1) \<Rightarrow>
               (let dataToUpdate = set_field ''updated_at'' (JDate (Some now)) updateData in
                case updateOne Posts (by_id i) dataToUpdate s1 of
                  (Inl err, s2) \<Rightarrow> (reply 500 False ''Gagal mengupdate post'' (Caught err), s2)
                | (Inr modifiedCount, s2) \<Rightarrow>
                    if modifiedCount = 0
                    then (reply 400 False ''Tidak ada perubahan data'' NoContent, s2)
                    else (case findOne Posts (by_id i) s2 of
                            (updatedPost, s3) \<Rightarrow>
                              (reply 200 True ''Post berhasil diupdate'' (Data updatedPost), s3))))"

definition delete_posts_id :: "string \<Rightarrow> db \<Rightarrow> response \<times> db" where
  \<comment> \<open>\<^verbatim>\<open>DELETE /posts/:id\<close>\<close>
  "delete_posts_id i s =
     (if \<not> ObjectId_isValid i then (reply 400 False ''ID post tidak valid'' NoContent, s)
      else case findOne Posts (by_id i) s of
             (None, s1) \<Rightarrow> (reply 404 False ''Post tidak ditemukan'' NoContent, s1)
           | (Some existingPost, s1) \<Rightarrow>
               (case deleteOne Posts (by_id i) s1 of
                  (deletedCount, s2) \<Rightarrow>
                    (reply 200 True ''Post berhasil dihapus'' (DeletedData existingPost), s2)))"

subsection \<open>The handlers of the products\<close>

definition harga_range :: "query \<Rightarrow> query_filter" where
  \<comment> \<open>the price range, written the same way in the list and in the advanced search\<close>
  "harga_range q =
     (let min_harga = param q ''min_harga''; max_harga = param q ''max_harga'' in
      if truthy min_harga \<or> truthy max_harga
      then [Where ''harga''
              (Between (if truthy min_harga then Some (JNum (parseFloat min_harga)) else None)
                       (if truthy max_harga then Some (JNum (parseFloat max_harga)) else None))]
      else [])"

definition produk_list_filter :: "query \<Rightarrow> query_filter" where
  "produk_list_filter q =
     (let search = param q ''search''; kategori = param q ''kategori'' in
      (if truthy search
       then [AnyOf [Where ''nama_produk'' (Matches (str_of search)),
                    Where ''deskripsi'' (Matches (str_of search))]]
       else [])
      @ (if truthy kategori then [Where ''kategori'' (Matches (str_of kategori))] else [])
      @ harga_range q)"

definition get_produk :: "query \<Rightarrow> db \<Rightarrow> response \<times> db" where
  \<comment> \<open>\<^verbatim>\<open>GET /api/produk\<close>\<close>
  "get_produk q s =
     (let pageNum = parseInt (with_default (param q ''page'') (JNum (Fin 1)));
          limitNum = parseInt (with_default (param q ''limit'') (JNum (Fin 10)));
          skipN = js_mul (js_sub pageNum (Fin 1)) limitNum;
          flt = produk_list_filter q
      in case coll_find Produk flt ''tanggal_dibuat'' (Some skipN) limitNum s of
           (Inl err, s1) \<Rightarrow> (reply 500 False ''Gagal mengambil data produk'' (Caught err), s1)
         | (Inr found, s1) \<Rightarrow>
             (case countDocuments Produk flt s1 of
                (totalN, s2) \<Rightarrow>
                  (reply 200 True (''Ditemukan '' @ show_nat (length found) @ '' produk'')
                     (Page found (page_info pageNum limitNum totalN)), s2)))"

definition get_produk_id :: "string \<Rightarrow> db \<Rightarrow> response \<times> db" where
  \<comment> \<open>\<^verbatim>\<open>GET /api/produk/:id\<close>\<close>
  "get_produk_id i s =
     (if \<not> ObjectId_isValid i
      then (reply 400 False ''ID produk tidak valid. Gunakan format ObjectId yang benar.'' NoContent, s)
      else case findOne Produk (by_id i) s of
             (None, s1) \<Rightarrow> (reply 404 False ''Produk dengan ID tersebut tidak ditemukan'' NoContent, s1)
           | (Some found, s1) \<Rightarrow> (reply 200 True ''Produk berhasil ditemukan'' (Data (Some found)), s1))"

definition optional_trim :: "jsval \<Rightarrow> js_error + string" where
  \<comment> \<open>\<^verbatim>\<open>v ? v.trim() : ''\<close>\<close>
  "optional_trim v = (if truthy v then call_trim v else Inr [])"

definition produk_fields :: "jsobj \<Rightarrow> js_error + jsobj" where
  \<comment> \<open>the seven fields both \<^verbatim>\<open>produkBaru\<close> and \<^verbatim>\<open>updateData\<close> start with\<close>
  "produk_fields dataProduk =
     and_then (call_trim (get dataProduk ''kode_produk'')) (\<lambda>kode.
     and_then (call_trim (get dataProduk ''nama_produk'')) (\<lambda>nama.
     and_then (call_trim (get dataProduk ''kategori'')) (\<lambda>kategori.
     and_then (optional_trim (get dataProduk ''deskripsi'')) (\<lambda>deskripsi.
     and_then (optional_trim (get dataProduk ''supplier'')) (\<lambda>supplier.
     Inr [(''kode_produk'', JStr kode),
          (''nama_produk'', JStr nama),
          (''kategori'', JStr kategori),
          (''harga'', JNum (parseFloat (get dataProduk ''harga''))),
          (''stok'', JNum (parseInt (get dataProduk ''stok''))),
          (''deskripsi'', JStr deskripsi),
          (''supplier'', JStr supplier)])))))"

definition post_produk_try :: "int \<Rightarrow> string \<Rightarrow> jsobj \<Rightarrow> db \<Rightarrow> (js_error + response) \<times> db" where
  \<comment> \<open>the \<^verbatim>\<open>try\<close> block of \<^verbatim>\<open>POST /api/produk\<close>; \<open>newId\<close> is the identifier the driver makes up\<close>
  "post_produk_try now newId dataProduk s =
     (case validateProduk dataProduk of
        Inl err \<Rightarrow> (Inl err, s)
      | Inr errors \<Rightarrow>
          if 0 < length errors
          then (Inr (reply 400 False ''Data produk tidak valid'' (ErrorList errors)), s)
          else (case call_trim (get dataProduk ''kode_produk'') of
                  Inl err \<Rightarrow> (Inl err, s)
                | Inr kode \<Rightarrow>
                    (case findOne Produk [Where ''kode_produk'' (IsEq (JStr kode))] s of
                       (Some existingProduk, s1) \<Rightarrow>
                         (Inr (reply 409 False
                                 ''Kode produk sudah digunakan. Gunakan kode yang berbeda.'' NoContent), s1)
                     | (None, s1) \<Rightarrow>
                         (case produk_fields dataProduk of
                            Inl err \<Rightarrow> (Inl err, s1)
                          | Inr flds \<Rightarrow>
                              (let produkBaru = flds @
                                     [(''tanggal_dibuat'', JDate (Some now)),
                                      (''tanggal_diupdate'', JDate (Some now)),
                                      (''status'', JStr ''aktif'')]
                               in case insertOne Produk newId produkBaru s1 of
                                    (Inl err, s2) \<Rightarrow> (Inl err, s2)
                                  | (Inr insertedId, s2) \<Rightarrow>
                                      (Inr (reply 201 True ''Produk berhasil ditambahkan''
                                              (Data (Some ((''_id'', insertedId) # produkBaru)))), s2))))))"

definition post_produk :: "int \<Rightarrow> string \<Rightarrow> jsobj \<Rightarrow> db \<Rightarrow> response \<times> db" where
  \<comment> \<open>\<^verbatim>\<open>POST /api/produk\<close> with its \<^verbatim>\<open>catch\<close>\<close>
  "post_produk now newId dataProduk s =
     (case post_produk_try now newId dataProduk s of
        (Inr r, s1) \<Rightarrow> (r, s1)
      | (Inl err, s1) \<Rightarrow>
          if err = MongoError 11000
          then (reply 409 False ''Kode produk sudah digunakan'' NoContent, s1)
          else (reply 500 False ''Gagal menambahkan produk'' (Caught err), s1))"

definition put_produk_try :: "int \<Rightarrow> string \<Rightarrow> jsobj \<Rightarrow> db \<Rightarrow> (js_error + response) \<times> db" where
  \<comment> \<open>the \<^verbatim>\<open>try\<close> block of \<^verbatim>\<open>PUT /api/produk/:id\<close>\<close>
  "put_produk_try now i dataProduk s =
     (if \<not> ObjectId_isValid i then (Inr (reply 400 False ''ID produk tidak valid'' NoContent), s)
      else case validateProduk dataProduk of
        Inl err \<Rightarrow> (Inl err, s)
      | Inr errors \<Rightarrow>
          if 0 < length errors
          then (Inr (reply 400 False ''Data produk tidak valid'' (ErrorList errors)), s)
          else (case findOne Produk (by_id i) s of
                  (None, s1) \<Rightarrow> (Inr (reply 404 False ''Produk tidak ditemukan'' NoContent), s1)
                | (Some existingProduk, s1) \<Rightarrow>
                    (case call_trim (get dataProduk ''kode_produk'') of
                       Inl err \<Rightarrow> (Inl err, s1)
                     | Inr kode \<Rightarrow>
                         (case findOne Produk [Where ''kode_produk'' (IsEq (JStr kode)),
                                               Where ''_id'' (NotEq (ObjectId i))] s1 of
                            (Some duplicateCheck, s2) \<Rightarrow>
                              (Inr (reply 409 False
                                      ''Kode produk sudah digunakan oleh produk lain'' NoContent), s2)
                          | (None, s2) \<Rightarrow>
                              (case produk_fields dataProduk of
                                 Inl err \<Rightarrow> (Inl err, s2)
                               | Inr flds \<Rightarrow>
                                   (let updateData = flds @ [(''tanggal_diupdate'', JDate (Some now))]
                                    in case updateOne Produk (by_id i) updateData s2 of
                                         (Inl err, s3) \<Rightarrow> (Inl err, s3)
                                       | (Inr modifiedCount, s3) \<Rightarrow>
                                           if modifiedCount = 0
                                           then (Inr (reply 400 False
                                                   ''Tidak ada perubahan data atau data sama dengan sebelumnya''
                                                   NoContent), s3)
                                           else (case findOne Produk (by_id i) s3 of
                                                   (updatedProduk, s4) \<Rightarrow>
                                                     (Inr (reply 200 True ''Produk berhasil diupdate''
                                                             (Data updatedProduk)), s4))))))))"

definition put_produk :: "int \<Rightarrow> string \<Rightarrow> jsobj \<Rightarrow> db \<Rightarrow> response \<times> db" where
  \<comment> \<open>\<^verbatim>\<open>PUT /api/produk/:id\<close> with its \<^verbatim>\<open>catch\<close>\<close>
  "put_produk now i dataProduk s =
     (case put_produk_try now i dataProduk s of
        (Inr r, s1) \<Rightarrow> (r, s1)
      | (Inl err, s1) \<Rightarrow> (reply 500 False ''Gagal mengupdate produk'' (Caught err), s1))"

definition delete_produk_id :: "string \<Rightarrow> db \<Rightarrow> response \<times> db" where
  \<comment> \<open>\<^verbatim>\<open>DELETE /api/produk/:id\<close>\<close>
  "delete_produk_id i s =
     (if \<not> ObjectId_isValid i then (reply 400 False ''ID produk tidak valid'' NoContent, s)
      else case findOne Produk (by_id i) s of
             (None, s1) \<Rightarrow> (reply 404 False ''Produk tidak ditemukan'' NoContent, s1)
           | (Some existingProduk, s1) \<Rightarrow>
               (case deleteOne Produk (by_id i) s1 of
                  (deletedCount, s2) \<Rightarrow>
                    (reply 200 True ''Produk berhasil dihapus'' (DeletedData existingProduk), s2)))"

definition produk_advanced_filter :: "query \<Rightarrow> query_filter" where
  "produk_advanced_filter q =
     (let nama = param q ''nama''; kode = param q ''kode''; kategori = param q ''kategori'';
          supplier = param q ''supplier''
      in (if truthy nama then [Where ''nama_produk'' (Matches (str_of nama))] else [])
         @ (if truthy kode then [Where ''kode_produk'' (Matches (str_of kode))] else [])
         @ (if truthy kategori then [Where ''kategori'' (Matches (str_of kategori))] else [])
         @ (if truthy supplier then [Where ''supplier'' (Matches (str_of supplier))] else [])
         @ harga_range q
         @ (if param q ''stok_kosong'' = JStr ''true''
            then [Where ''stok'' (Between None (Some (JNum (Fin 0))))] else []))"

definition get_produk_search_advanced :: "query \<Rightarrow> db \<Rightarrow> response \<times> db" where
  \<comment> \<open>\<^verbatim>\<open>GET /api/produk/search/advanced\<close>\<close>
  "get_produk_search_advanced q s =
     (if js_not (param q ''nama'') \<and> js_not (param q ''kode'') \<and> js_not (param q ''kategori'')
         \<and> js_not (param q ''min_harga'') \<and> js_not (param q ''max_harga'')
         \<and> js_not (param q ''supplier'') \<and> js_not (param q ''stok_kosong'')
      then (reply 400 False ''Minimal satu parameter pencarian harus diisi'' NoContent, s)
      else (let flt = produk_advanced_filter q in
            case coll_find Produk flt ''tanggal_dibuat'' None (Fin 100) s of
              (Inl err, s1) \<Rightarrow> (reply 500 False ''Gagal mencari produk'' (Caught err), s1)
            | (Inr found, s1) \<Rightarrow>
                (reply 200 True (''Ditemukan '' @ show_nat (length found) @ '' produk'')
                   (Found found flt), s1)))"

text \<open>Payloads for the concrete checks below.\<close>

definition payload_no_nama :: jsobj where
  \<comment> \<open>no \<^verbatim>\<open>nama_produk\<close>, everything else in order\<close>
  "payload_no_nama = [(''kode_produk'', JStr ''P1''), (''kategori'', JStr ''Office''),
     (''harga'', JNum (Fin 5)), (''stok'', JNum (Fin 10))]"

definition payload_kode_number :: jsobj where
  \<comment> \<open>no \<^verbatim>\<open>nama_produk\<close>, and a number where the code is expected\<close>
  "payload_kode_number = [(''kode_produk'', JNum (Fin 123)), (''kategori'', JStr ''Office''),
     (''harga'', JNum (Fin 5)), (''stok'', JNum (Fin 10))]"

fun stok_rejected :: "jsval \<Rightarrow> bool" where
  \<comment> \<open>a stock value that is absent, a number of at most \<open>-1\<close>, or not numeric for \<^verbatim>\<open>isNaN\<close>\<close>
  "stok_rejected JUndefined = True"
| "stok_rejected (JNum (Fin r)) = (r \<le> - 1)"
| "stok_rejected v = isNaN v"

definition payload_stok_negative :: jsobj where
  "payload_stok_negative = [(''kode_produk'', JStr ''P1''), (''nama_produk'', JStr ''Pen''),
     (''kategori'', JStr ''Office''), (''harga'', JNum (Fin 5)), (''stok'', JNum (Fin (- 3)))]"

definition payload_stok_fraction :: jsobj where
  "payload_stok_fraction = [(''kode_produk'', JStr ''P1''), (''nama_produk'', JStr ''Pen''),
     (''kategori'', JStr ''Office''), (''harga'', JNum (Fin 5)), (''stok'', JNum (Fin (3 / 2)))]"

definition has_id :: "string \<Rightarrow> doc \<Rightarrow> bool" where
  \<comment> \<open>the document carries the identifier the string stands for\<close>
  "has_id i d = (get d ''_id'' = ObjectId i)"

text \<open>A small database for the concrete checks: two posts and two products.\<close>

definition id_post1 :: string where "id_post1 = ''64b000000000000000000001''"
definition id_post2 :: string where "id_post2 = ''64b000000000000000000002''"
definition id_produk1 :: string where "id_produk1 = ''64b0000000000000000000a1''"
definition id_produk2 :: string where "id_produk2 = ''64b0000000000000000000a2''"

definition post1 :: doc where
  "post1 = [(''_id'', JOid id_post1), (''title'', JStr ''Halo''),
            (''created_at'', JDate (Some 1000)), (''updated_at'', JDate (Some 1000))]"

definition post2 :: doc where
  "post2 = [(''_id'', JOid id_post2), (''title'', JStr ''Kedua''),
            (''created_at'', JDate (Some 2000)), (''updated_at'', JDate (Some 2000))]"

definition produk1 :: doc where
  "produk1 = [(''_id'', JOid id_produk1), (''kode_produk'', JStr ''P1''),
              (''nama_produk'', JStr ''Pen''), (''kategori'', JStr ''Office''),
              (''harga'', JNum (Fin 5)), (''stok'', JNum (Fin 10)),
              (''deskripsi'', JStr []), (''supplier'', JStr []),
              (''tanggal_dibuat'', JDate (Some 1000)),
              (''tanggal_diupdate'', JDate (Some 1000)), (''status'', JStr ''aktif'')]"

definition produk2 :: doc where
  "produk2 = [(''_id'', JOid id_produk2), (''kode_produk'', JStr ''P2''),
              (''nama_produk'', JStr ''Buku''), (''kategori'', JStr ''Office''),
              (''harga'', JNum (Fin 12)), (''stok'', JNum (Fin 0)),
              (''deskripsi'', JStr []), (''supplier'', JStr []),
              (''tanggal_dibuat'', JDate (Some 2000)),
              (''tanggal_diupdate'', JDate (Some 2000)), (''status'', JStr ''aktif'')]"

definition db_sample :: db where
  "db_sample = \<lparr>posts = [post1, post2], produk = [produk1, produk2], ops = []\<rparr>"

definition payload_pen :: jsobj where
  \<comment> \<open>the field values of the first product\<close>
  "payload_pen = [(''kode_produk'', JStr ''P1''), (''nama_produk'', JStr ''Pen''),
     (''kategori'', JStr ''Office''), (''harga'', JNum (Fin 5)), (''stok'', JNum (Fin 10))]"

definition update_keys :: "string list" where
  \<comment> \<open>the keys of \<^verbatim>\<open>updateData\<close> in \<^verbatim>\<open>PUT /api/produk/:id\<close>\<close>
  "update_keys = [''kode_produk'', ''nama_produk'', ''kategori'', ''harga'', ''stok'',
                  ''deskripsi'', ''supplier'', ''tanggal_diupdate'']"

definition payload_pen_7 :: jsobj where
  \<comment> \<open>the first product with another price, its code padded with blanks\<close>
  "payload_pen_7 = [(''kode_produk'', JStr '' P1 ''), (''nama_produk'', JStr ''Pen''),
     (''kategori'', JStr ''Office''), (''harga'', JNum (Fin 7)), (''stok'', JNum (Fin 10))]"

definition id_new1 :: string where "id_new1 = ''64b0000000000000000000b1''"

definition id_new2 :: string where "id_new2 = ''64b0000000000000000000b2''"

definition payload_p3 :: jsobj where
  "payload_p3 = [(''kode_produk'', JStr ''P3''), (''nama_produk'', JStr ''Tinta''),
     (''kategori'', JStr ''Office''), (''harga'', JNum (Fin 9)), (''stok'', JNum (Fin 4))]"

definition payload_p3_spaced :: jsobj where
  "payload_p3_spaced = [(''kode_produk'', JStr '' P3 ''), (''nama_produk'', JStr ''Tinta biru''),
     (''kategori'', JStr ''Office''), (''harga'', JNum (Fin 11)), (''stok'', JNum (Fin 1))]"

definition payload_p2 :: jsobj where
  \<comment> \<open>the code of the second product\<close>
  "payload_p2 = [(''kode_produk'', JStr ''P2''), (''nama_produk'', JStr ''Pen''),
     (''kategori'', JStr ''Office''), (''harga'', JNum (Fin 5)), (''stok'', JNum (Fin 10))]"

subsection \<open>Notions for stating the properties of the lists and searches\<close>

definition pageNum_of :: "query \<Rightarrow> jsnum" where
  \<comment> \<open>\<^verbatim>\<open>pageNum\<close> as both list handlers compute it\<close>
  "pageNum_of q = parseInt (with_default (param q ''page'') (JNum (Fin 1)))"

definition limitNum_of :: "query \<Rightarrow> jsnum" where
  \<comment> \<open>\<^verbatim>\<open>limitNum\<close> as both list handlers compute it\<close>
  "limitNum_of q = parseInt (with_default (param q ''limit'') (JNum (Fin 10)))"

definition pagination_of :: "int \<Rightarrow> int \<Rightarrow> nat \<Rightarrow> pagination" where
  \<comment> \<open>the metadata in the specification's words, for page \<open>p\<close>, page size \<open>L\<close> and \<open>N\<close>
      matching documents: \<open>ceil(N/L)\<close> pages, a next page iff \<open>p\<close> is below that, a previous
      page iff \<open>p\<close> is above 1\<close>
  "pagination_of p L N =
     \<lparr>current_page = Fin (of_int p),
      total_pages = Fin (of_int \<lceil>(of_nat N :: rat) / of_int L\<rceil>),
      total_data = N,
      per_page = Fin (of_int L),
      has_next = (p < \<lceil>(of_nat N :: rat) / of_int L\<rceil>),
      has_prev = (1 < p)\<rparr>"

definition returned :: "response \<Rightarrow> doc list" where
  \<comment> \<open>the documents in \<^verbatim>\<open>data\<close> of a list or search response\<close>
  "returned r = (case content r of Found ds f \<Rightarrow> ds | Page ds pg \<Rightarrow> ds | _ \<Rightarrow> [])"

definition newest_first :: "string \<Rightarrow> doc list \<Rightarrow> bool" where
  \<comment> \<open>in descending order of the field \<open>k\<close>, in the store's order of values\<close>
  "newest_first k ds = sorted_wrt (\<lambda>a b. bson_le (get b k) (get a k)) ds"

definition query_page2 :: query where
  "query_page2 = [(''page'', ''2''), (''limit'', ''1'')]"

definition query_title :: query where
  "query_title = [(''title'', ''A'')]"

definition query_limit2 :: query where
  "query_limit2 = [(''limit'', ''2'')]"

definition query_limit0 :: query where
  "query_limit0 = [(''limit'', ''0'')]"

definition query_page0 :: query where
  "query_page0 = [(''page'', ''0'')]"

definition query_page_big :: query where
  \<comment> \<open>the page \<open>2^53 + 1\<close>\<close>
  "query_page_big = [(''page'', ''9007199254740993''), (''limit'', ''1'')]"

text \<open>
  An instance of the engine's date parser for the concrete checks: it reads the date-only
  form \<^verbatim>\<open>YYYY-MM-DD\<close> as midnight UTC of that day and nothing else.
\<close>

definition days_from_civil :: "int \<Rightarrow> int \<Rightarrow> int \<Rightarrow> int" where
  "days_from_civil y m d =
     (let y1 = (if m \<le> 2 then y - 1 else y);
          era = y1 div 400;
          yoe = y1 - era * 400;
          doy = (153 * (if 2 < m then m - 3 else m + 9) + 2) div 5 + d - 1;
          doe = yoe * 365 + yoe div 4 - yoe div 100 + doy
      in era * 146097 + doe - 719468)"

definition days_in_month :: "int \<Rightarrow> int \<Rightarrow> int" where
  "days_in_month y m =
     (if m = 2 then (if y mod 4 = 0 \<and> (y mod 100 \<noteq> 0 \<or> y mod 400 = 0) then 29 else 28)
      else if m = 4 \<or> m = 6 \<or> m = 9 \<or> m = 11 then 30 else 31)"

definition iso_date_parse :: "string \<Rightarrow> int option" where
  "iso_date_parse s =
     (if length s = 10 \<and> list_all isDigit (take 4 s) \<and> s ! 4 = CHR ''-''
         \<and> list_all isDigit (take 2 (drop 5 s)) \<and> s ! 7 = CHR ''-''
         \<and> list_all isDigit (drop 8 s)
      then (let y = int (radixVal 10 (take 4 s)); m = int (radixVal 10 (take 2 (drop 5 s)));
                d = int (radixVal 10 (drop 8 s))
            in if 1 \<le> m \<and> m \<le> 12 \<and> 1 \<le> d \<and> d \<le> days_in_month y m
               then Some (days_from_civil y m d * 86400000) else None)
      else None)"

definition query_date_to :: query where
  "query_date_to = [(''date_to'', ''kemarin'')]"

definition query_dates :: query where
  "query_dates = [(''date_from'', ''kemarin''), (''date_to'', ''besok'')]"

definition query_kategori :: query where
  "query_kategori = [(''kategori'', ''office'')]"

section \<open>Properties\<close>

subsection \<open>Helper facts\<close>

text \<open>Rounding leaves an integer up to \<open>2^53\<close> as it is, and a quotient of two such
  integers keeps its ceiling.\<close>

lemma log2floor_bounds: "0 < n \<Longrightarrow> 2 ^ log2floor n \<le> n \<and> n < 2 ^ Suc (log2floor n)"
proof (induction n rule: log2floor.induct)
  case (1 n)
  show ?case
  proof (cases "n < 2")
    case True
    with 1(2) have "n = 1" by simp
    then show ?thesis by (simp add: log2floor.simps)
  next
    case False
    then have "0 < n div 2" by simp
    from 1(1)[OF False this] have ih: "2 ^ log2floor (n div 2) \<le> n div 2"
      "n div 2 < 2 ^ Suc (log2floor (n div 2))" by simp_all
    have s: "log2floor n = Suc (log2floor (n div 2))" using False by (simp add: log2floor.simps)
    from ih(1) have "2 * 2 ^ log2floor (n div 2) \<le> 2 * (n div 2)" by simp
    also have "\<dots> \<le> n" by simp
    finally have a: "2 ^ log2floor n \<le> n" by (simp add: s)
    from ih(2) have "n div 2 + 1 \<le> 2 ^ Suc (log2floor (n div 2))" by simp
    then have "2 * (n div 2 + 1) \<le> 2 * 2 ^ Suc (log2floor (n div 2))" by simp
    moreover have "n < 2 * (n div 2 + 1)" by presburger
    ultimately have b: "n < 2 ^ Suc (log2floor n)" by (simp add: s)
    from a b show ?thesis by simp
  qed
qed

lemma round_half_even_int [simp]: "round_half_even (of_int j) = j"
  by (simp add: round_half_even_def)

lemma round_half_even_le: "x \<le> of_int j \<Longrightarrow> round_half_even x \<le> j"
proof -
  assume a: "x \<le> of_int j"
  show ?thesis
  proof (cases "x = of_int j")
    case True then show ?thesis by simp
  next
    case False
    with a have "x < of_int j" by simp
    then have "\<lfloor>x\<rfloor> < j" by (simp add: floor_less_iff)
    then show ?thesis by (simp add: round_half_even_def Let_def)
  qed
qed

lemma round_half_even_gt: "of_int j + 1 / 2 < x \<Longrightarrow> j + 1 \<le> round_half_even x"
proof -
  assume a: "of_int j + 1 / 2 < x"
  then have "of_int j \<le> x" by simp
  then have f: "j \<le> \<lfloor>x\<rfloor>" by (simp add: le_floor_iff)
  show ?thesis
  proof (cases "j = \<lfloor>x\<rfloor>")
    case True
    with a have "1 / 2 < x - of_int \<lfloor>x\<rfloor>" by simp
    then show ?thesis using True by (simp add: round_half_even_def Let_def)
  next
    case False
    with f have "j + 1 \<le> \<lfloor>x\<rfloor>" by simp
    then show ?thesis by (simp add: round_half_even_def Let_def)
  qed
qed


lemma pow2_pos [simp]: "0 < pow2 e"
  by (simp add: pow2_def)

lemma pow2_nonzero [simp]: "pow2 e \<noteq> 0"
  by (simp add: pow2_def)

lemma pow2_low: "e \<le> 52 \<Longrightarrow> pow2 (e - 52) = 1 / 2 ^ nat (52 - e)"
  by (cases "e = 52") (simp_all add: pow2_def)

lemma binade_nat: "0 < n \<Longrightarrow> binade (of_nat n) = int (log2floor n)"
  by (simp add: binade_def)

lemma to_double_exact:
  assumes "0 < a" and "a / pow2 (max (binade a) (- 1022) - 52) = of_int m" and "a < 2 ^ 1024"
  shows "to_double a = Fin a"
proof -
  have "of_int m * pow2 (max (binade a) (- 1022) - 52) = a"
    using assms(2)[symmetric] by simp
  then show ?thesis
    using assms(1,3) by (simp add: to_double_def Let_def assms(2))
qed

lemma to_double_neg: "to_double (- r) = (case to_double r of Fin v \<Rightarrow> Fin (- v) | PosInf \<Rightarrow> NegInf
    | NegInf \<Rightarrow> PosInf | NaN \<Rightarrow> NaN)"
  by (cases "r = 0"; cases "r < 0") (auto simp: to_double_def Let_def)

lemma to_double_of_nat:
  assumes "n \<le> 2 ^ 53"
  shows "to_double (of_nat n) = Fin (of_nat n)"
proof (cases "n = 0")
  case True then show ?thesis by (simp add: to_double_def)
next
  case False
  then have pos: "0 < n" by simp
  let ?e = "log2floor n"
  from log2floor_bounds[OF pos] have lo: "2 ^ ?e \<le> n" and hi: "n < 2 ^ Suc ?e" by simp_all
  from lo assms have h: "(2::nat) ^ ?e \<le> 2 ^ 53" by (rule order_trans)
  have e53: "?e \<le> 53" by (rule power_le_imp_le_exp[OF _ h]) simp
  have b: "max (binade (of_nat n)) (- 1022) = int ?e" by (simp add: binade_nat[OF pos])
  have big: "(of_nat n :: rat) < 2 ^ 1024"
  proof -
    have "(of_nat n :: rat) \<le> of_nat (2 ^ 53)" using assms by (simp only: of_nat_le_iff)
    also have "\<dots> < 2 ^ 1024" by simp
    finally show ?thesis .
  qed
  have posr: "(0::rat) < of_nat n" using pos by simp
  show ?thesis
  proof (cases "?e = 53")
    case True
    with lo assms have n: "n = 2 ^ 53" by simp
    have q: "pow2 (int ?e - 52) = 2" using True by (simp add: pow2_def)
    have "(of_nat n :: rat) / pow2 (max (binade (of_nat n)) (- 1022) - 52) = of_int (2 ^ 52)"
      unfolding b q by (simp add: n)
    from to_double_exact[OF posr this big] show ?thesis .
  next
    case False
    with e53 have le: "int ?e \<le> 52" by simp
    have "(of_nat n :: rat) / pow2 (max (binade (of_nat n)) (- 1022) - 52)
          = of_int (int n * 2 ^ nat (52 - int ?e))"
      unfolding b pow2_low[OF le] by simp
    from to_double_exact[OF posr this big] show ?thesis .
  qed
qed

lemma to_double_of_int:
  assumes "\<bar>n\<bar> \<le> 2 ^ 53"
  shows "to_double (of_int n) = Fin (of_int n)"
proof (cases "0 \<le> n")
  case True
  then have "nat n \<le> 2 ^ 53" using assms by (simp add: nat_le_iff)
  from to_double_of_nat[OF this] True show ?thesis by simp
next
  case False
  then have "nat (- n) \<le> 2 ^ 53" using assms by (simp add: nat_le_iff)
  from to_double_of_nat[OF this] False have "to_double (of_int (- n)) = Fin (of_int (- n))" by simp
  then have "to_double (- of_int n) = Fin (- of_int n)" by simp
  then show ?thesis by (simp add: to_double_neg split: jsnum.splits)
qed

lemma to_double_0 [simp]: "to_double 0 = Fin 0"
  by (simp add: to_double_def)

lemma to_double_1 [simp]: "to_double 1 = Fin 1"
  using to_double_of_int[of 1] by simp

lemma to_double_neg_1 [simp]: "to_double (- 1) = Fin (- 1)"
  using to_double_of_int[of "- 1"] by simp

lemma to_double_numeral [simp]:
  "numeral k \<le> (2::int) ^ 53 \<Longrightarrow> to_double (numeral k) = Fin (numeral k)"
  using to_double_of_int[of "numeral k"] by simp

lemma to_double_neg_numeral [simp]:
  "numeral k \<le> (2::int) ^ 53 \<Longrightarrow> to_double (- numeral k) = Fin (- numeral k)"
  using to_double_of_int[of "- numeral k"] by simp

lemma to_double_ceiling_core:
  assumes r: "r = of_int n / of_int L" and rpos: "0 < r" and L: "0 < L"
    and k: "max (binade r) (- 1022) - 52 = k" and k0: "k \<le> 0"
    and LM: "of_int L < 2 * (2::rat) ^ nat (- k)" and rb: "r \<le> 2 ^ 53"
  shows "\<exists>v. to_double r = Fin v \<and> \<lceil>v\<rceil> = \<lceil>r\<rceil>"
proof -
  define K :: int where "K = 2 ^ nat (- k)"
  define M :: rat where "M = of_int K"
  define c where "c = \<lceil>r\<rceil>"
  define m where "m = round_half_even (r * M)"
  have Kpos: "0 < K" by (simp add: K_def)
  have Mpos: "0 < M" using Kpos by (simp add: M_def)
  have M2: "M = 2 ^ nat (- k)" by (simp add: M_def K_def)
  have q: "pow2 k = 1 / M" using k0 by (cases "k = 0") (simp_all add: pow2_def M2)
  have Lr: "(0::rat) < of_int L" using L by simp
  have "r \<le> of_int c" by (simp add: c_def)
  then have "r * M \<le> of_int c * M" using Mpos by (simp only: mult_le_cancel_right_pos)
  then have "r * M \<le> of_int (c * K)" by (simp add: M_def)
  then have m_le: "m \<le> c * K" unfolding m_def by (rule round_half_even_le)
  have "of_int c - 1 < r" unfolding c_def by linarith
  then have "(of_int c - 1) * of_int L < r * of_int L" using Lr by (simp only: mult_less_cancel_right_pos)
  also have "r * of_int L = of_int n" using Lr by (simp add: r)
  finally have "(of_int ((c - 1) * L) :: rat) < of_int n" by simp
  then have "(c - 1) * L < n" by (simp only: of_int_less_iff)
  then have "(c - 1) * L + 1 \<le> n" by simp
  then have "(of_int ((c - 1) * L + 1) :: rat) \<le> of_int n" by (simp only: of_int_le_iff)
  then have "(of_int c - 1) * of_int L + 1 \<le> r * of_int L" using Lr by (simp add: r)
  then have "((of_int c - 1) * of_int L + 1) / of_int L \<le> r"
    using Lr by (simp only: pos_divide_le_eq)
  then have lo: "(of_int c - 1) + 1 / of_int L \<le> r" using Lr by (simp add: field_simps)
  have half: "1 / 2 < M / of_int L" using LM Lr by (simp add: M2 field_simps)
  have "(of_int c - 1) * M + 1 / 2 < ((of_int c - 1) + 1 / of_int L) * M"
    using half by (simp add: algebra_simps)
  also have "\<dots> \<le> r * M" using lo Mpos by (simp only: mult_le_cancel_right_pos)
  finally have "of_int ((c - 1) * K) + 1 / 2 < r * M" by (simp add: M_def)
  then have m_ge: "(c - 1) * K + 1 \<le> m" unfolding m_def by (rule round_half_even_gt)
  define v where "v = of_int m * pow2 k"
  have vM: "v = of_int m / M" by (simp add: v_def q)
  have "(of_int m :: rat) \<le> of_int (c * K)" using m_le by (simp only: of_int_le_iff)
  then have "of_int m \<le> of_int c * M" by (simp add: M_def)
  then have v_le: "v \<le> of_int c" using Mpos by (simp add: vM pos_divide_le_eq)
  have "(of_int ((c - 1) * K) :: rat) < of_int m" using m_ge by (simp only: of_int_less_iff)
  then have "(of_int c - 1) * M < of_int m" by (simp add: M_def)
  then have v_gt: "of_int c - 1 < v" using Mpos by (simp add: vM pos_less_divide_eq)
  have "c \<le> 2 ^ 53" unfolding c_def using rb by (simp add: ceiling_le_iff)
  then have "(of_int c :: rat) \<le> of_int (2 ^ 53)" by (simp only: of_int_le_iff)
  also have "\<dots> < 2 ^ 1024" by simp
  finally have "v < 2 ^ 1024" using v_le by simp
  then have "to_double r = Fin v"
    using rpos by (simp add: to_double_def Let_def k v_def m_def q)
  moreover have "\<lceil>v\<rceil> = c" using v_le v_gt by (simp add: ceiling_unique)
  ultimately show ?thesis by (simp add: c_def)
qed


lemma to_double_ceiling_div:
  fixes N :: nat and L :: int
  assumes L1: "1 \<le> L" and L53: "L \<le> 2 ^ 53" and N53: "N \<le> 2 ^ 53"
  shows "\<exists>v. to_double (of_nat N / of_int L) = Fin v \<and> \<lceil>v\<rceil> = \<lceil>(of_nat N :: rat) / of_int L\<rceil>"
proof -
  define r :: rat where "r = of_nat N / of_int L"
  have Lr: "(1::rat) \<le> of_int L" using L1 by simp
  have Lpos: "0 < L" using L1 by simp
  have r0: "0 \<le> r" using Lr by (simp add: r_def)
  have "(of_nat N :: rat) \<le> of_nat (2 ^ 53)" using N53 by (simp only: of_nat_le_iff)
  then have NN: "(of_nat N :: rat) \<le> 2 ^ 53" by simp
  have "r * 1 \<le> r * of_int L" using Lr r0 by (rule mult_left_mono)
  also have "r * of_int L = of_nat N" using Lpos by (simp add: r_def)
  finally have rb: "r \<le> 2 ^ 53" using NN by simp
  have rq: "r = of_int (int N) / of_int L" by (simp add: r_def)
  have "\<exists>v. to_double r = Fin v \<and> \<lceil>v\<rceil> = \<lceil>r\<rceil>"
  proof (cases "r = of_int \<lfloor>r\<rfloor>")
    case True
    have "0 \<le> \<lfloor>r\<rfloor>" using r0 by simp
    moreover have "\<lfloor>r\<rfloor> \<le> 2 ^ 53" using rb by (simp add: floor_le_iff)
    ultimately have "\<bar>\<lfloor>r\<rfloor>\<bar> \<le> 2 ^ 53" by simp
    from to_double_of_int[OF this] have "to_double r = Fin (of_int \<lfloor>r\<rfloor>)"
      using True by simp
    moreover have "\<lceil>(of_int \<lfloor>r\<rfloor> :: rat)\<rceil> = \<lceil>r\<rceil>" using True by simp
    ultimately show ?thesis by blast
  next
    case False
    define j where "j = \<lfloor>r\<rfloor>"
    have fl: "of_int j < r" unfolding j_def
      by (rule order.not_eq_order_implies_strict[OF False[symmetric] of_int_floor_le])
    from False r0 have rpos: "0 < r" by (cases "r = 0") simp_all
    show ?thesis
    proof (cases "1 \<le> r")
      case True
      define e where "e = log2floor (nat j)"
      have f1: "1 \<le> j" using True by (simp add: j_def)
      then have fpos: "0 < nat j" by simp
      from log2floor_bounds[OF fpos] have lo: "2 ^ e \<le> nat j" by (simp add: e_def)
      have p53: "(2::rat) ^ 53 = of_int (2 ^ 53)" by simp
      have "of_int j < (2::rat) ^ 53" using fl rb by (rule less_le_trans)
      then have "j < 2 ^ 53" unfolding p53 by (simp only: of_int_less_iff)
      then have "nat j < 2 ^ 53" using f1 by simp
      with lo have h: "(2::nat) ^ e < 2 ^ 53" by (rule le_less_trans)
      have "e < 53" by (rule power_less_imp_less_exp[OF _ h]) simp
      then have e52: "e \<le> 52" by simp
      have b: "binade r = int e" using True by (simp add: binade_def e_def j_def)
      have k: "max (binade r) (- 1022) - 52 = int e - 52" by (simp add: b)
      have k0: "int e - 52 \<le> 0" using e52 by simp
      have nk: "nat (- (int e - 52)) = 52 - e" using e52 by simp
      have "(of_nat (2 ^ e) :: rat) \<le> of_nat (nat j)" using lo by (simp only: of_nat_le_iff)
      then have "(2::rat) ^ e \<le> of_int j" using f1 by simp
      then have "(2::rat) ^ e < r" using fl by (rule le_less_trans)
      then have "of_int L * 2 ^ e < of_int L * r"
        using Lpos by (simp only: mult_less_cancel_left_pos of_int_0_less_iff)
      also have "of_int L * r = of_nat N" using Lpos by (simp add: r_def)
      also have "(of_nat N :: rat) \<le> 2 ^ 53" by (rule NN)
      also have "(2::rat) ^ 53 = 2 * 2 ^ (52 - e) * 2 ^ e"
      proof -
        have "(53::nat) = Suc ((52 - e) + e)" using e52 by simp
        then have "(2::rat) ^ 53 = 2 ^ Suc ((52 - e) + e)" by simp
        then show ?thesis by (simp only: power_Suc power_add mult.assoc)
      qed
      finally have "of_int L * 2 ^ e < (2 * 2 ^ (52 - e)) * (2::rat) ^ e" .
      then have LM: "of_int L < 2 * (2::rat) ^ nat (- (int e - 52))"
        unfolding nk by (simp only: mult_less_cancel_right_pos zero_less_power zero_less_numeral)
      from to_double_ceiling_core[OF rq rpos Lpos k k0 LM rb] show ?thesis .
    next
      case False
      define k where "k = max (binade r) (- 1022) - 52"
      have "binade r \<le> - 1" using False by (simp add: binade_def)
      then have k53: "k \<le> - 53" by (simp add: k_def)
      then have k0: "k \<le> 0" by simp
      have "53 \<le> nat (- k)" using k53 by simp
      then have "(2::rat) ^ 53 \<le> 2 ^ nat (- k)" by (simp only: power_increasing_iff one_less_numeral_iff semiring_norm)
      moreover have "(0::rat) < 2 ^ nat (- k)" by simp
      ultimately have p: "(2::rat) ^ 53 < 2 * 2 ^ nat (- k)" by linarith
      have "(of_int L :: rat) \<le> of_int (2 ^ 53)" using L53 by (simp only: of_int_le_iff)
      then have "(of_int L :: rat) \<le> 2 ^ 53" by simp
      with p have LM: "of_int L < 2 * (2::rat) ^ nat (- k)" by simp
      from to_double_ceiling_core[OF rq rpos Lpos k_def[symmetric] k0 LM rb] show ?thesis .
    qed
  qed
  then show ?thesis by (simp add: r_def)
qed

lemma and_then_Inr_iff:
  "and_then m f = Inr y \<longleftrightarrow> (\<exists>a. m = Inr a \<and> f a = Inr y)"
  by (cases m) auto

lemma msgs_distinct:
  "distinct [msg_kode, msg_nama, msg_kategori, msg_harga, msg_stok]"
  by (simp add: msg_kode_def msg_nama_def msg_kategori_def msg_harga_def msg_stok_def)

lemma or_else_Inr [simp]: "or_else a (Inr b) = Inr (a \<or> b)"
  by (cases a) simp_all

lemma text_rule_total:
  assumes "is_text v"
  shows "or_else (js_not v) (and_then (call_trim v) (\<lambda>t. Inr (P t)))
         = Inr (case v of JStr s \<Rightarrow> s = [] \<or> P (trim s) | _ \<Rightarrow> True)"
  using assms by (cases v) (auto simp: js_not_def)

lemma push_if_Inr [simp]:
  "push_if (Inr b) m es = Inr (es @ (if b then [m] else []))"
  by (simp add: push_if_def)

lemma push_if_eq_Inr:
  assumes "push_if c m es = Inr es'"
  shows "\<exists>b. es' = es @ (if b then [m] else [])"
proof (cases c)
  case (Inl e)
  with assms show ?thesis by (simp add: push_if_def)
next
  case (Inr b)
  with assms have "es' = es @ (if b then [m] else [])" by auto
  then show ?thesis ..
qed

lemma validateProduk_Inr:
  assumes "validateProduk data = Inr errors"
  shows "\<exists>b1 b2 b3. errors =
           (if b1 then [msg_kode] else []) @ (if b2 then [msg_nama] else [])
           @ (if b3 then [msg_kategori] else [])
           @ (if harga_cond data then [msg_harga] else [])
           @ (if stok_cond data then [msg_stok] else [])"
proof -
  from assms obtain e1 e2 e3 where
    1: "push_if (or_else (js_not (get data ''kode_produk''))
          (and_then (call_trim (get data ''kode_produk'')) (\<lambda>t. Inr (t = '''')))) msg_kode [] = Inr e1"
    and 2: "push_if (or_else (js_not (get data ''nama_produk''))
          (and_then (call_trim (get data ''nama_produk'')) (\<lambda>t. Inr (length t < 3)))) msg_nama e1 = Inr e2"
    and 3: "push_if (or_else (js_not (get data ''kategori''))
          (and_then (call_trim (get data ''kategori'')) (\<lambda>t. Inr (t = '''')))) msg_kategori e2 = Inr e3"
    and 4: "errors = (e3 @ (if harga_cond data then [msg_harga] else []))
                @ (if stok_cond data then [msg_stok] else [])"
    unfolding validateProduk_def
    by (auto simp: and_then_Inr_iff)
  from push_if_eq_Inr[OF 1] obtain b1 where b1: "e1 = [] @ (if b1 then [msg_kode] else [])" ..
  from push_if_eq_Inr[OF 2] obtain b2 where b2: "e2 = e1 @ (if b2 then [msg_nama] else [])" ..
  from push_if_eq_Inr[OF 3] obtain b3 where b3: "e3 = e2 @ (if b3 then [msg_kategori] else [])" ..
  show ?thesis
    apply (rule exI[of _ b1], rule exI[of _ b2], rule exI[of _ b3])
    using 4 b1 b2 b3 by simp
qed

lemma validateProduk_text:
  assumes "is_text (get data ''kode_produk'')" "is_text (get data ''nama_produk'')"
    "is_text (get data ''kategori'')"
  shows "validateProduk data = Inr
           ((if nonblank (get data ''kode_produk'') then [] else [msg_kode])
            @ (if at_least3 (get data ''nama_produk'') then [] else [msg_nama])
            @ (if nonblank (get data ''kategori'') then [] else [msg_kategori])
            @ (if harga_cond data then [msg_harga] else [])
            @ (if stok_cond data then [msg_stok] else []))"
proof -
  have nb: "\<And>v. is_text v \<Longrightarrow>
      (case v of JStr s \<Rightarrow> s = [] \<or> trim s = [] | _ \<Rightarrow> True) = (\<not> nonblank v)"
    by (case_tac v) (auto simp: trim_def)
  have a3: "\<And>v. is_text v \<Longrightarrow>
      (case v of JStr s \<Rightarrow> s = [] \<or> length (trim s) < 3 | _ \<Rightarrow> True) = (\<not> at_least3 v)"
    by (case_tac v) (auto simp: trim_def)
  show ?thesis
    unfolding validateProduk_def
    by (simp add: text_rule_total[OF assms(1)] text_rule_total[OF assms(2)]
        text_rule_total[OF assms(3)] nb[OF assms(1)] a3[OF assms(2)] nb[OF assms(3)])
qed

lemma error_list_props:
  fixes m1 :: "'a"
  assumes "distinct [m1, m2, m3, m4, m5]"
    and "es = (if a then [] else [m1]) @ (if b then [] else [m2]) @ (if c then [] else [m3])
            @ (if d then [m4] else []) @ (if e then [m5] else [])"
  shows "es = filter (\<lambda>m. m \<in> set es) [m1, m2, m3, m4, m5]"
    and "m1 \<in> set es \<longleftrightarrow> \<not> a" and "m2 \<in> set es \<longleftrightarrow> \<not> b" and "m3 \<in> set es \<longleftrightarrow> \<not> c"
    and "m4 \<in> set es \<longleftrightarrow> d" and "m5 \<in> set es \<longleftrightarrow> e"
    and "es = [] \<longleftrightarrow> a \<and> b \<and> c \<and> \<not> d \<and> \<not> e"
  using assms by (cases a; cases b; cases c; cases d; cases e; auto)+

lemma leadDigit_pos: "0 < n \<Longrightarrow> 0 < leadDigit n"
proof (induction n rule: leadDigit.induct)
  case (1 n)
  show ?case
  proof (cases "n < 10")
    case True
    then show ?thesis using "1.prems" by (subst leadDigit.simps) simp
  next
    case False
    then have "0 < n div 10" by simp
    with "1.IH"[OF False] have "0 < leadDigit (n div 10)" .
    then show ?thesis using False by (subst leadDigit.simps) simp
  qed
qed

lemma firstDigit_pos:
  assumes "1 \<le> a"
  shows "0 < firstDigit a"
proof -
  have "(1::rat) \<le> 10 ^ numDigits (nat \<lceil>1 / a\<rceil>)"
    by simp
  with assms have "1 * 1 \<le> a * 10 ^ numDigits (nat \<lceil>1 / a\<rceil>)"
    by (intro mult_mono) simp_all
  then have "1 \<le> a * 10 ^ numDigits (nat \<lceil>1 / a\<rceil>)"
    by simp
  then have "0 < nat \<lfloor>a * 10 ^ numDigits (nat \<lceil>1 / a\<rceil>)\<rfloor>"
    by simp
  then show ?thesis
    unfolding firstDigit_def by (rule leadDigit_pos)
qed

lemma parseInt_num_negative:
  assumes "r \<le> - 1"
  shows "js_lt (parseInt_num (Fin r)) (Fin 0)"
proof -
  have "0 < firstDigit \<bar>r\<bar>" using assms by (intro firstDigit_pos) simp
  moreover have "\<lceil>r\<rceil> \<le> - 1" using assms by (simp add: ceiling_le_iff)
  ultimately show ?thesis using assms by (simp add: parseInt_num_def)
qed

lemma stok_rejected_cond:
  "stok_rejected (get data ''stok'') \<Longrightarrow> stok_cond data"
  by (cases "get data ''stok''" rule: stok_rejected.cases)
     (auto simp: stok_cond_def isNaN_def parseInt_num_negative)

lemma nonneg_integer_accepted:
  "nonneg_integer (get data ''stok'') \<Longrightarrow> \<not> stok_cond data"
  by (cases "get data ''stok''" rule: nonneg_integer.cases)
     (auto simp: stok_cond_def isNaN_def parseInt_num_def)

lemma validateProduk_stok_msg:
  assumes "validateProduk data = Inr errors"
  shows "msg_stok \<in> set errors \<longleftrightarrow> stok_cond data"
proof -
  from validateProduk_Inr[OF assms] obtain b1 b2 b3 where
    "errors = (if b1 then [msg_kode] else []) @ (if b2 then [msg_nama] else [])
           @ (if b3 then [msg_kategori] else [])
           @ (if harga_cond data then [msg_harga] else [])
           @ (if stok_cond data then [msg_stok] else [])"
    by blast
  then show ?thesis using msgs_distinct by auto
qed

lemmas eval_validate = validateProduk_def get_def js_not_def push_if_def
      harga_cond_def stok_cond_def isNaN_def parseInt_num_def trim_def isWhiteSpace_def

lemma matches_by_id [simp]: "matches (by_id i) d = has_id i d"
  by (simp add: matches_def by_id_def has_id_def)

lemma matches_by_id_fun [simp]: "matches (by_id i) = has_id i"
  by (rule ext) simp

lemma find_first_None [simp]: "find_first P xs = None \<longleftrightarrow> filter P xs = []"
  by (simp add: find_first_def split: list.splits)

lemma find_first_Some: "find_first P xs = Some d \<longleftrightarrow> (\<exists>r. filter P xs = d # r)"
  by (simp add: find_first_def split: list.splits)

lemma filter_eq_Cons_split:
  assumes "filter P xs = d # r"
  shows "\<exists>before after. xs = before @ d # after \<and> P d \<and> filter P before = []"
  using assms
proof (induction xs)
  case Nil
  then show ?case by simp
next
  case (Cons x xs)
  show ?case
  proof (cases "P x")
    case True
    with Cons.prems have "x = d" by simp
    with True have "x # xs = [] @ d # xs \<and> P d \<and> filter P [] = []" by simp
    then show ?thesis by blast
  next
    case False
    with Cons.prems have "filter P xs = d # r" by simp
    from Cons.IH[OF this] obtain before after where
      "xs = before @ d # after" "P d" "filter P before = []" by blast
    with False have "x # xs = (x # before) @ d # after \<and> P d \<and> filter P (x # before) = []"
      by simp
    then show ?thesis by blast
  qed
qed

lemma remove_first_split:
  "filter P before = [] \<Longrightarrow> P d \<Longrightarrow> remove_first P (before @ d # after) = before @ after"
  by (induction before) (auto split: if_splits)

lemma replace_first_split:
  "filter P before = [] \<Longrightarrow> P d \<Longrightarrow> replace_first P y (before @ d # after) = before @ y # after"
  by (induction before) (auto split: if_splits)

lemma docs_of_simps [simp]:
  "docs_of Posts s = posts s" "docs_of Produk s = produk s"
  "docs_of c (logged x s) = docs_of c s"
  by (simp_all add: docs_of_def logged_def split: coll.splits)

lemma set_docs_simps [simp]:
  "posts (set_docs Posts ds s) = ds" "produk (set_docs Posts ds s) = produk s"
  "produk (set_docs Produk ds s) = ds" "posts (set_docs Produk ds s) = posts s"
  "posts (logged x s) = posts s" "produk (logged x s) = produk s"
  by (simp_all add: set_docs_def logged_def)

lemma delete_by_id:
  "filter (has_id i) (docs_of c s) = [] \<Longrightarrow> findOne c (by_id i) s = (None, logged (FindOne c (by_id i)) s)"
  "filter (has_id i) (docs_of c s) = d # r \<Longrightarrow>
     findOne c (by_id i) s = (Some d, logged (FindOne c (by_id i)) s)
     \<and> deleteOne c (by_id i) (logged x s)
         = (1, set_docs c (remove_first (has_id i) (docs_of c s)) (logged (DeleteOne c (by_id i)) (logged x s)))"
  by (simp_all add: findOne_def deleteOne_def find_first_def cong: filter_cong)

lemmas sample_defs = db_sample_def post1_def post2_def produk1_def produk2_def
  id_post1_def id_post2_def id_produk1_def id_produk2_def

lemmas id_eval = has_id_def get_def ObjectId_def ObjectId_isValid_def lowerChar_def
  isHexDigit_def hexDigit_def

lemma get_set_field: "get (set_field k v d) k' = (if k' = k then v else get d k')"
  by (induction d) (auto simp: get_def)

lemma get_set_fields_other:
  "k \<notin> fst ` set upd \<Longrightarrow> get (set_fields upd d) k = get d k"
  unfolding set_fields_def
  by (induction upd arbitrary: d) (auto simp: get_set_field)

lemma get_set_fields_last:
  "get (set_fields (upd @ [(k, v)]) d) k = v"
  by (simp add: set_fields_def get_set_field)

lemma produk_fields_keys:
  assumes "produk_fields data = Inr flds"
  shows "map fst flds = [''kode_produk'', ''nama_produk'', ''kategori'', ''harga'', ''stok'',
                        ''deskripsi'', ''supplier'']"
    and "\<exists>kode. call_trim (get data ''kode_produk'') = Inr kode \<and> get flds ''kode_produk'' = JStr kode"
  using assms unfolding produk_fields_def
  by (auto simp: and_then_Inr_iff get_def)

lemma find_first_split:
  assumes "find_first P xs = Some d"
  shows "\<exists>before after. xs = before @ d # after \<and> P d \<and> filter P before = []"
  using assms filter_eq_Cons_split[of P xs d] by (auto simp: find_first_Some)

lemma find_first_at:
  "filter P before = [] \<Longrightarrow> P d \<Longrightarrow> find_first P (before @ d # after) = Some d"
  by (simp add: find_first_def)

lemma updateOne_modified:
  assumes "updateOne c f upd s = (Inr n, s3)" and "0 < n"
  shows "\<exists>d before after. docs_of c s = before @ d # after \<and> matches f d
            \<and> filter (matches f) before = []
            \<and> get (set_fields upd d) ''_id'' = get d ''_id''
            \<and> s3 = set_docs c (before @ set_fields upd d # after) (logged (UpdateOne c f upd) s)"
proof -
  from assms obtain d where d: "find_first (matches f) (docs_of c s) = Some d"
    by (auto simp: updateOne_def Let_def split: option.splits)
  from find_first_split[OF d] obtain before after where
    sp: "docs_of c s = before @ d # after" "matches f d" "filter (matches f) before = []"
    by blast
  from assms d have "get (set_fields upd d) ''_id'' = get d ''_id''"
    and "s3 = set_docs c (replace_first (matches f) (set_fields upd d) (docs_of c s))
                (logged (UpdateOne c f upd) s)"
    by (auto simp: updateOne_def Let_def split: if_splits)
  with sp show ?thesis
    by (auto simp: replace_first_split)
qed

lemma put_produk_200:
  assumes "put_produk now i data s = (r, s')" and "status r = 200"
  shows "\<exists>flds d before after.
           ObjectId_isValid i
         \<and> produk_fields data = Inr flds
         \<and> produk s = before @ d # after \<and> has_id i d \<and> filter (has_id i) before = []
         \<and> get (set_fields (flds @ [(''tanggal_diupdate'', JDate (Some now))]) d) ''_id'' = get d ''_id''
         \<and> produk s' = before @ set_fields (flds @ [(''tanggal_diupdate'', JDate (Some now))]) d # after
         \<and> posts s' = posts s
         \<and> r = reply 200 True ''Produk berhasil diupdate''
                 (Data (Some (set_fields (flds @ [(''tanggal_diupdate'', JDate (Some now))]) d)))"
proof -
  from assms have "\<exists>kode flds n s3. ObjectId_isValid i \<and> produk_fields data = Inr flds
      \<and> updateOne Produk (by_id i) (flds @ [(''tanggal_diupdate'', JDate (Some now))])
            (logged (FindOne Produk [Where ''kode_produk'' (IsEq (JStr kode)),
                                    Where ''_id'' (NotEq (ObjectId i))])
               (logged (FindOne Produk (by_id i)) s)) = (Inr n, s3)
      \<and> 0 < n \<and> s' = logged (FindOne Produk (by_id i)) s3
      \<and> r = reply 200 True ''Produk berhasil diupdate'' (Data (find_first (has_id i) (produk s3)))"
    unfolding put_produk_def put_produk_try_def
    by (simp add: reply_def split: if_splits sum.splits prod.splits option.splits)
       (auto simp: findOne_def)
  then obtain kode flds n s3 where
    v: "ObjectId_isValid i" and f: "produk_fields data = Inr flds"
    and u: "updateOne Produk (by_id i) (flds @ [(''tanggal_diupdate'', JDate (Some now))])
            (logged (FindOne Produk [Where ''kode_produk'' (IsEq (JStr kode)),
                                    Where ''_id'' (NotEq (ObjectId i))])
               (logged (FindOne Produk (by_id i)) s)) = (Inr n, s3)"
    and n: "0 < n" and s': "s' = logged (FindOne Produk (by_id i)) s3"
    and r: "r = reply 200 True ''Produk berhasil diupdate'' (Data (find_first (has_id i) (produk s3)))"
    by blast
  let ?upd = "flds @ [(''tanggal_diupdate'', JDate (Some now))]"
  from updateOne_modified[OF u n] obtain d before after where
    sp: "produk s = before @ d # after" "has_id i d" "filter (has_id i) before = []"
    and idk: "get (set_fields ?upd d) ''_id'' = get d ''_id''"
    and s3: "produk s3 = before @ set_fields ?upd d # after" "posts s3 = posts s"
    by auto
  from idk sp(2) have "has_id i (set_fields ?upd d)" by (simp add: has_id_def)
  with sp(3) s3(1) have "find_first (has_id i) (produk s3) = Some (set_fields ?upd d)"
    by (simp add: find_first_at)
  with v f sp idk s3 s' r show ?thesis by auto
qed

lemmas eval_store = findOne_def updateOne_def deleteOne_def insertOne_def countDocuments_def
  coll_find_def find_first_def matches_def by_id_def logged_def set_docs_def docs_of_def
  set_fields_def unique_clash_def

lemmas eval_put = put_produk_def put_produk_try_def produk_fields_def optional_trim_def reply_def

lemmas eval_all = eval_put eval_validate eval_store sample_defs ObjectId_isValid_def
  ObjectId_def lowerChar_def isHexDigit_def hexDigit_def has_id_def

lemma get_Cons_other: "k' \<noteq> k \<Longrightarrow> get ((k', v) # d) k = get d k"
  by (simp add: get_def)

lemma get_append_left: "k \<in> set (map fst a) \<Longrightarrow> get (a @ b) k = get a k"
  by (induction a) (auto simp: get_def)

lemma filter_nonempty: "x \<in> set xs \<Longrightarrow> P x \<Longrightarrow> filter P xs \<noteq> []"
  by (induction xs) auto

lemma findOne_found:
  assumes "x \<in> set (docs_of c s)" and "matches f x"
  shows "\<exists>d. findOne c f s = (Some d, logged (FindOne c f) s)"
proof -
  from filter_nonempty[of x _ "matches f", OF assms] obtain d r where "filter (matches f) (docs_of c s) = d # r"
    by (cases "filter (matches f) (docs_of c s)") auto
  then show ?thesis by (simp add: findOne_def find_first_def)
qed

lemma insertOne_ok:
  assumes "insertOne c nid d s0 = (Inr v, s1)" and "map_of d ''_id'' = None"
  shows "produk s1 = (if c = Produk then produk s0 @ [(''_id'', JOid nid) # d] else produk s0)"
    and "posts s1 = (if c = Posts then posts s0 @ [(''_id'', JOid nid) # d] else posts s0)"
  using assms by (cases c; auto simp: insertOne_def Let_def split: if_splits)+

lemma produk_fields_no_id:
  assumes "produk_fields data = Inr flds"
  shows "map_of (flds @ [(''tanggal_dibuat'', a), (''tanggal_diupdate'', b), (''status'', c)]) ''_id''
         = None"
proof -
  have "''_id'' \<notin> set (map fst flds)"
    by (simp add: produk_fields_keys(1)[OF assms])
  moreover have "fst ` set flds = set (map fst flds)" by simp
  ultimately have "map_of flds ''_id'' = None"
    by (simp only: map_of_eq_None_iff not_False_eq_True)
  then show ?thesis by (simp add: map_add_def)
qed

lemma post_produk_201:
  assumes "post_produk now nid data s = (r, s1)" and "status r = 201"
  shows "\<exists>kode d. call_trim (get data ''kode_produk'') = Inr kode
           \<and> get d ''kode_produk'' = JStr kode \<and> produk s1 = produk s @ [d]
           \<and> posts s1 = posts s"
proof -
  from assms have "\<exists>kode flds v. call_trim (get data ''kode_produk'') = Inr kode
      \<and> produk_fields data = Inr flds
      \<and> insertOne Produk nid (flds @ [(''tanggal_dibuat'', JDate (Some now)),
                                      (''tanggal_diupdate'', JDate (Some now)),
                                      (''status'', JStr ''aktif'')])
            (logged (FindOne Produk [Where ''kode_produk'' (IsEq (JStr kode))]) s) = (Inr v, s1)"
    unfolding post_produk_def post_produk_try_def
    by (simp add: reply_def Let_def split: if_splits sum.splits prod.splits option.splits)
       (auto simp: findOne_def)
  then obtain kode flds v where k: "call_trim (get data ''kode_produk'') = Inr kode"
    and f: "produk_fields data = Inr flds"
    and ins: "insertOne Produk nid (flds @ [(''tanggal_dibuat'', JDate (Some now)),
                                      (''tanggal_diupdate'', JDate (Some now)),
                                      (''status'', JStr ''aktif'')])
            (logged (FindOne Produk [Where ''kode_produk'' (IsEq (JStr kode))]) s) = (Inr v, s1)"
    by blast
  from insertOne_ok[OF ins produk_fields_no_id[OF f]]
  have p: "produk s1 = produk s @ [(''_id'', JOid nid) # flds @
                                     [(''tanggal_dibuat'', JDate (Some now)),
                                      (''tanggal_diupdate'', JDate (Some now)),
                                      (''status'', JStr ''aktif'')]]"
    and q: "posts s1 = posts s"
    by simp_all
  from produk_fields_keys[OF f] k have g: "get flds ''kode_produk'' = JStr kode"
    and m: "''kode_produk'' \<in> set (map fst flds)"
    by auto
  have "get ((''_id'', JOid nid) # flds @
                                     [(''tanggal_dibuat'', JDate (Some now)),
                                      (''tanggal_diupdate'', JDate (Some now)),
                                      (''status'', JStr ''aktif'')]) ''kode_produk'' = JStr kode"
    using g m by (simp add: get_Cons_other get_append_left del: set_map)
  with k p q show ?thesis by blast
qed

lemmas eval_post = post_produk_def post_produk_try_def produk_fields_def optional_trim_def reply_def
  Let_def

lemma as_count_int [simp]: "as_count (Fin (of_int k)) = Some k"
  by (simp add: as_count_def)

lemma coll_find_page:
  assumes "0 \<le> n" and "1 \<le> L"
  shows "coll_find c flt k (Some (Fin (of_int n))) (Fin (of_int L)) s
         = (Inr (take (nat L) (drop (nat n) (sort_desc k (filter (matches flt) (docs_of c s))))),
            logged (Find c flt k (Some (Fin (of_int n))) (Fin (of_int L))) s)"
proof -
  have nn: "\<not> n < 0" using assms(1) by simp
  have lz: "L \<noteq> 0" "\<bar>L\<bar> = L" using assms(2) by simp_all
  show ?thesis
    unfolding coll_find_def Let_def as_count_int
    by (simp only: option.case prod.case nn lz if_False as_count_int)
qed

lemma skip_value:
  assumes "pageNum_of q = Fin (of_int p)" and "1 \<le> p"
    and "limitNum_of q = Fin (of_int L)" and "1 \<le> L" and "(p - 1) * L \<le> 2 ^ 53"
  shows "js_mul (js_sub (pageNum_of q) (Fin 1)) (limitNum_of q) = Fin (of_int ((p - 1) * L))"
proof -
  have "(p - 1) * 1 \<le> (p - 1) * L" using assms(2,4) by (intro mult_left_mono) simp_all
  with assms(2,5) have "\<bar>p - 1\<bar> \<le> 2 ^ 53" by simp
  from to_double_of_int[OF this] have a: "to_double (of_int p - 1) = Fin (of_int (p - 1))"
    by simp
  have "0 \<le> (p - 1) * L" using assms(2,4) by simp
  with assms(5) have "\<bar>(p - 1) * L\<bar> \<le> 2 ^ 53" by simp
  from to_double_of_int[OF this]
  have b: "to_double (of_int (p - 1) * of_int L) = Fin (of_int ((p - 1) * L))" by simp
  show ?thesis unfolding assms(1,3) js_sub.simps a js_mul.simps b ..
qed

lemma page_info_int:
  assumes "1 \<le> L" and "L \<le> 2 ^ 53" and "n \<le> 2 ^ 53"
  shows "page_info (Fin (of_int p)) (Fin (of_int L)) n = pagination_of p L n"
proof -
  from to_double_ceiling_div[OF assms] obtain v
    where v: "to_double (of_nat n / of_int L) = Fin v"
             "\<lceil>v\<rceil> = \<lceil>(of_nat n :: rat) / of_int L\<rceil>" by blast
  have "js_div (Fin (of_nat n)) (Fin (of_int L)) = Fin v" using assms(1) v(1) by simp
  then have "js_ceil (js_div (Fin (of_nat n)) (Fin (of_int L)))
             = Fin (of_int \<lceil>(of_nat n :: rat) / of_int L\<rceil>)" using v(2) by simp
  then show ?thesis by (simp add: page_info_def js_gt_def pagination_of_def)
qed

lemma get_posts_page:
  assumes "pageNum_of q = Fin (of_int p)" and "1 \<le> p"
    and "limitNum_of q = Fin (of_int L)" and "1 \<le> L" and "(p - 1) * L \<le> 2 ^ 53"
  shows "get_posts q s =
     (reply 200 True []
        (Page (take (nat L) (drop (nat ((p - 1) * L))
                 (sort_desc ''_id'' (filter (matches (posts_list_filter q)) (posts s)))))
           (page_info (Fin (of_int p)) (Fin (of_int L))
              (length (filter (matches (posts_list_filter q)) (posts s))))),
      logged (CountDocuments Posts (posts_list_filter q))
        (logged (Find Posts (posts_list_filter q) ''_id''
                   (Some (Fin (of_int ((p - 1) * L)))) (Fin (of_int L))) s))"
proof -
  have sk: "0 \<le> (p - 1) * L" using assms(2,4) by simp
  note f = coll_find_page[OF sk assms(4), of Posts "posts_list_filter q" "''_id''" s]
  have g: "get_posts q s =
     (case coll_find Posts (posts_list_filter q) ''_id'' (Some (Fin (of_int ((p - 1) * L))))
             (Fin (of_int L)) s of
           (Inl err, s1) \<Rightarrow> (reply 500 False ''Gagal mengambil data posts'' (Caught err), s1)
         | (Inr found, s1) \<Rightarrow>
             (case countDocuments Posts (posts_list_filter q) s1 of
                (totalN, s2) \<Rightarrow>
                  (reply 200 True [] (Page found (page_info (Fin (of_int p)) (Fin (of_int L)) totalN)), s2)))"
    unfolding get_posts_def Let_def pageNum_of_def[symmetric] limitNum_of_def[symmetric]
      skip_value[OF assms]
    unfolding assms(1,3) ..
  show ?thesis
    unfolding g f by (simp add: countDocuments_def)
qed

lemma get_produk_page:
  assumes "pageNum_of q = Fin (of_int p)" and "1 \<le> p"
    and "limitNum_of q = Fin (of_int L)" and "1 \<le> L" and "(p - 1) * L \<le> 2 ^ 53"
  shows "get_produk q s =
     (reply 200 True
        (''Ditemukan '' @ show_nat (length (take (nat L) (drop (nat ((p - 1) * L))
                 (sort_desc ''tanggal_dibuat'' (filter (matches (produk_list_filter q)) (produk s))))))
           @ '' produk'')
        (Page (take (nat L) (drop (nat ((p - 1) * L))
                 (sort_desc ''tanggal_dibuat'' (filter (matches (produk_list_filter q)) (produk s)))))
           (page_info (Fin (of_int p)) (Fin (of_int L))
              (length (filter (matches (produk_list_filter q)) (produk s))))),
      logged (CountDocuments Produk (produk_list_filter q))
        (logged (Find Produk (produk_list_filter q) ''tanggal_dibuat''
                   (Some (Fin (of_int ((p - 1) * L)))) (Fin (of_int L))) s))"
proof -
  have sk: "0 \<le> (p - 1) * L" using assms(2,4) by simp
  note f = coll_find_page[OF sk assms(4), of Produk "produk_list_filter q" "''tanggal_dibuat''" s]
  have g: "get_produk q s =
     (case coll_find Produk (produk_list_filter q) ''tanggal_dibuat''
             (Some (Fin (of_int ((p - 1) * L)))) (Fin (of_int L)) s of
           (Inl err, s1) \<Rightarrow> (reply 500 False ''Gagal mengambil data produk'' (Caught err), s1)
         | (Inr found, s1) \<Rightarrow>
             (case countDocuments Produk (produk_list_filter q) s1 of
                (totalN, s2) \<Rightarrow>
                  (reply 200 True (''Ditemukan '' @ show_nat (length found) @ '' produk'')
                     (Page found (page_info (Fin (of_int p)) (Fin (of_int L)) totalN)), s2)))"
    unfolding get_produk_def Let_def pageNum_of_def[symmetric] limitNum_of_def[symmetric]
      skip_value[OF assms]
    unfolding assms(1,3) ..
  show ?thesis
    unfolding g f by (simp add: countDocuments_def)
qed

lemma page_product_bounds:
  fixes p L :: int
  assumes "1 \<le> p" and "1 \<le> L" and "p * L \<le> 2 ^ 53"
  shows "(p - 1) * L \<le> 2 ^ 53" and "L \<le> 2 ^ 53"
proof -
  have "(p - 1) * L \<le> p * L" using assms(2) by (intro mult_right_mono) simp_all
  with assms(3) show "(p - 1) * L \<le> 2 ^ 53" by simp
  have "1 * L \<le> p * L" using assms(1,2) by (intro mult_right_mono) simp_all
  with assms(3) show "L \<le> 2 ^ 53" by simp
qed

lemmas eval_parse = pageNum_of_def limitNum_of_def param_def with_default_def parseInt_str_def
  trimStart_def isWhiteSpace_def scanSign_def isDigit_def radixVal_def hexDigit_def
  parseInt_num_def

lemmas eval_sort = sort_desc_def sort_by_def get_def

lemma length_insert_sorted [simp]: "length (insert_sorted le x xs) = Suc (length xs)"
  by (induction xs) auto

lemma set_insert_sorted [simp]: "set (insert_sorted le x xs) = insert x (set xs)"
  by (induction xs) auto

lemma length_sort_by [simp]: "length (sort_by le xs) = length xs"
  by (induction xs) (auto simp: sort_by_def)

lemma set_sort_by [simp]: "set (sort_by le xs) = set xs"
  by (induction xs) (auto simp: sort_by_def)

lemma num_le_total: "num_le x y \<or> num_le y x"
  by (cases x; cases y) auto

lemma num_le_trans: "num_le x y \<Longrightarrow> num_le y z \<Longrightarrow> num_le x z"
  by (cases x; cases y; cases z) auto

lemma str_le_total: "str_le x y \<or> str_le y x"
  by (induction x y rule: str_le.induct) auto

lemma str_le_trans: "str_le x y \<Longrightarrow> str_le y z \<Longrightarrow> str_le x z"
proof (induction x y arbitrary: z rule: str_le.induct)
  case (1 ys)
  then show ?case by simp
next
  case (2 x xs)
  then show ?case by simp
next
  case (3 x xs y ys)
  then show ?case by (cases z) auto
qed

lemma bson_le_total: "bson_le x y \<or> bson_le y x"
  using num_le_total str_le_total
  by (cases x; cases y) auto

lemma bson_le_trans: "bson_le x y \<Longrightarrow> bson_le y z \<Longrightarrow> bson_le x z"
  by (cases x; cases y; cases z) (auto intro: num_le_trans str_le_trans)

lemma sorted_insert_sorted:
  assumes tot: "\<And>a b. le a b \<or> le b a" and tr: "\<And>a b c. le a b \<Longrightarrow> le b c \<Longrightarrow> le a c"
  shows "sorted_wrt le xs \<Longrightarrow> sorted_wrt le (insert_sorted le x xs)"
proof (induction xs)
  case Nil
  then show ?case by simp
next
  case (Cons y ys)
  show ?case
  proof (cases "le x y")
    case True
    from Cons.prems have "\<forall>z\<in>set ys. le y z" by simp
    with True tr have "\<forall>z\<in>set ys. le x z" by blast
    with True Cons.prems show ?thesis by simp
  next
    case False
    with tot have "le y x" by blast
    with False Cons show ?thesis by auto
  qed
qed

lemma sorted_sort_by:
  assumes tot: "\<And>a b. le a b \<or> le b a" and tr: "\<And>a b c. le a b \<Longrightarrow> le b c \<Longrightarrow> le a c"
  shows "sorted_wrt le (sort_by le xs)"
proof (induction xs)
  case Nil
  then show ?case by (simp add: sort_by_def)
next
  case (Cons x xs)
  have "sort_by le (x # xs) = insert_sorted le x (sort_by le xs)"
    by (simp add: sort_by_def)
  with Cons sorted_insert_sorted[of le, OF tot tr] show ?case by simp
qed

lemma sorted_sort_desc:
  "sorted_wrt (\<lambda>a b. bson_le (get b k) (get a k)) (sort_desc k ds)"
  unfolding sort_desc_def
  by (rule sorted_sort_by) (use bson_le_total bson_le_trans in blast)+

lemma newest_first_sort_desc [simp]: "newest_first k (sort_desc k ds)"
  unfolding newest_first_def by (rule sorted_sort_desc)

lemma newest_first_take [simp]: "newest_first k ds \<Longrightarrow> newest_first k (take n ds)"
  by (simp add: newest_first_def)

lemma newest_first_Nil [simp]: "newest_first k []"
  by (simp add: newest_first_def)

lemma coll_find_limit:
  assumes "1 \<le> L"
  shows "coll_find c flt k None (Fin (of_int L)) s
         = (Inr (take (nat L) (sort_desc k (filter (matches flt) (docs_of c s)))),
            logged (Find c flt k None (Fin (of_int L))) s)"
proof -
  have lz: "L \<noteq> 0" "\<bar>L\<bar> = L" "\<not> (0::int) < 0" using assms by simp_all
  show ?thesis
    unfolding coll_find_def Let_def as_count_int
    by (simp only: option.case prod.case lz if_False nat_0 drop_0)
qed

lemma coll_find_50:
  "coll_find c flt k None (Fin 50) s
     = (Inr (take 50 (sort_desc k (filter (matches flt) (docs_of c s)))),
        logged (Find c flt k None (Fin 50)) s)"
  using coll_find_limit[of 50 c flt k s] by simp

lemma coll_find_100:
  "coll_find c flt k None (Fin 100) s
     = (Inr (take 100 (sort_desc k (filter (matches flt) (docs_of c s)))),
        logged (Find c flt k None (Fin 100)) s)"
  using coll_find_limit[of 100 c flt k s] by simp

lemma posts_search_cases:
  "fst (get_posts_search_advanced Date_parse q s)
     = reply 400 False ''Minimal satu parameter pencarian harus diisi'' NoContent
   \<or> fst (get_posts_search_advanced Date_parse q s)
     = reply 200 True
         (''Ditemukan '' @ show_nat (length (take 50 (sort_desc ''_id''
              (filter (matches (posts_advanced_filter Date_parse q)) (posts s))))) @ '' posts'')
         (Found (take 50 (sort_desc ''_id''
              (filter (matches (posts_advanced_filter Date_parse q)) (posts s))))
            (posts_advanced_filter Date_parse q))"
  by (simp add: get_posts_search_advanced_def coll_find_50 Let_def)

lemma produk_search_cases:
  "fst (get_produk_search_advanced q s)
     = reply 400 False ''Minimal satu parameter pencarian harus diisi'' NoContent
   \<or> fst (get_produk_search_advanced q s)
     = reply 200 True
         (''Ditemukan '' @ show_nat (length (take 100 (sort_desc ''tanggal_dibuat''
              (filter (matches (produk_advanced_filter q)) (produk s))))) @ '' produk'')
         (Found (take 100 (sort_desc ''tanggal_dibuat''
              (filter (matches (produk_advanced_filter q)) (produk s))))
            (produk_advanced_filter q))"
  by (simp add: get_produk_search_advanced_def coll_find_100 Let_def)

lemma char_of_eq_iff2: "c = char_of n \<longleftrightarrow> take_bit 8 n = (of_char c :: nat)"
  using char_of_eq_iff[of n c] by auto

lemmas eval_char = char_of_eq_iff char_of_eq_iff2

lemmas eval_search = get_posts_search_advanced_def get_produk_search_advanced_def
  posts_advanced_filter_def produk_advanced_filter_def harga_range_def param_def js_not_def
  coll_find_50 coll_find_100 Let_def reply_def returned_def matches_def date_ms_def

lemma iso_kemarin: "iso_date_parse ''kemarin'' = None" "iso_date_parse ''besok'' = None"
  by (simp_all add: iso_date_parse_def)

subsection \<open>The validator (C1)\<close>

text \<open>
  C1 (as amended). When \<^verbatim>\<open>kode_produk\<close>, \<^verbatim>\<open>nama_produk\<close> and \<^verbatim>\<open>kategori\<close> are each a
  string or a falsy value (absent included), \<^verbatim>\<open>validateProduk\<close> returns a list and never
  throws; the list holds the messages of the violated rules in rule order, each at most
  once; the message of each text rule is in it exactly when that rule is violated, so a
  payload that misses \<^verbatim>\<open>nama_produk\<close> or whose trimmed name is shorter than three
  characters gets the name message whatever the other fields are; and a payload that
  satisfies all five rules gets the empty list.
\<close>

theorem validateProduk_lists_every_violation:
  assumes "is_text (get data ''kode_produk'')" "is_text (get data ''nama_produk'')"
    "is_text (get data ''kategori'')"
  shows "\<exists>errors. validateProduk data = Inr errors
     \<and> errors = filter (\<lambda>m. m \<in> set errors) [msg_kode, msg_nama, msg_kategori, msg_harga, msg_stok]
     \<and> (msg_kode \<in> set errors \<longleftrightarrow> \<not> nonblank (get data ''kode_produk''))
     \<and> (msg_nama \<in> set errors \<longleftrightarrow> \<not> at_least3 (get data ''nama_produk''))
     \<and> (msg_kategori \<in> set errors \<longleftrightarrow> \<not> nonblank (get data ''kategori''))
     \<and> (map_of data ''nama_produk'' = None \<longrightarrow> msg_nama \<in> set errors)
     \<and> (rules_ok data \<longrightarrow> errors = [])"
proof -
  have h: "rules_ok data \<Longrightarrow> \<not> harga_cond data"
    by (cases "get data ''harga''" rule: positive_number.cases)
       (auto simp: rules_ok_def harga_cond_def js_not_def isNaN_def)
  have k: "rules_ok data \<Longrightarrow> \<not> stok_cond data"
    by (cases "get data ''stok''" rule: nonneg_integer.cases)
       (auto simp: rules_ok_def stok_cond_def isNaN_def parseInt_num_def)
  have m: "map_of data ''nama_produk'' = None \<Longrightarrow> \<not> at_least3 (get data ''nama_produk'')"
    by (simp add: get_def)
  define es where "es = (if nonblank (get data ''kode_produk'') then [] else [msg_kode])
            @ (if at_least3 (get data ''nama_produk'') then [] else [msg_nama])
            @ (if nonblank (get data ''kategori'') then [] else [msg_kategori])
            @ (if harga_cond data then [msg_harga] else [])
            @ (if stok_cond data then [msg_stok] else [])"
  have v: "validateProduk data = Inr es"
    unfolding es_def by (rule validateProduk_text[OF assms])
  note p = error_list_props[OF msgs_distinct es_def]
  have r: "rules_ok data \<Longrightarrow> es = []"
    using h k by (simp add: p(7)) (simp add: rules_ok_def)
  show ?thesis
  proof (intro exI[of _ es] conjI impI)
    show "validateProduk data = Inr es" by (rule v)
    show "es = filter (\<lambda>m. m \<in> set es) [msg_kode, msg_nama, msg_kategori, msg_harga, msg_stok]"
      by (rule p(1))
    show "msg_kode \<in> set es \<longleftrightarrow> \<not> nonblank (get data ''kode_produk'')" by (rule p(2))
    show "msg_nama \<in> set es \<longleftrightarrow> \<not> at_least3 (get data ''nama_produk'')" by (rule p(3))
    show "msg_kategori \<in> set es \<longleftrightarrow> \<not> nonblank (get data ''kategori'')" by (rule p(4))
    show "msg_nama \<in> set es" if "map_of data ''nama_produk'' = None"
      using m[OF that] by (simp add: p(3))
    show "es = []" if "rules_ok data" by (rule r[OF that])
  qed
qed

theorem validateProduk_lists_every_violation_witness:
  "is_text (get payload_no_nama ''kode_produk'') \<and> is_text (get payload_no_nama ''nama_produk'')
   \<and> is_text (get payload_no_nama ''kategori'')
   \<and> map_of payload_no_nama ''nama_produk'' = None
   \<and> (\<exists>errors. validateProduk payload_no_nama = Inr errors \<and> msg_nama \<in> set errors)
   \<and> is_text (get payload_pen ''kode_produk'') \<and> is_text (get payload_pen ''nama_produk'')
   \<and> is_text (get payload_pen ''kategori'') \<and> rules_ok payload_pen
   \<and> validateProduk payload_pen = Inr []"
proof -
  have a: "is_text (get payload_no_nama ''kode_produk'')"
    "is_text (get payload_no_nama ''nama_produk'')"
    "is_text (get payload_no_nama ''kategori'')"
    by (simp_all add: payload_no_nama_def get_def js_not_def)
  have b: "map_of payload_no_nama ''nama_produk'' = None"
    by (simp add: payload_no_nama_def)
  from validateProduk_lists_every_violation[OF a] obtain errors where
    "validateProduk payload_no_nama = Inr errors"
    "map_of payload_no_nama ''nama_produk'' = None \<longrightarrow> msg_nama \<in> set errors"
    by (elim exE conjE)
  with b have c: "\<exists>errors. validateProduk payload_no_nama = Inr errors \<and> msg_nama \<in> set errors"
    by (intro exI[of _ errors]) simp
  have d: "is_text (get payload_pen ''kode_produk'')"
    "is_text (get payload_pen ''nama_produk'')"
    "is_text (get payload_pen ''kategori'')"
    by (simp_all add: payload_pen_def get_def)
  have e: "rules_ok payload_pen"
    by (simp add: rules_ok_def payload_pen_def get_def trim_def isWhiteSpace_def)
  from validateProduk_lists_every_violation[OF d] obtain errors' where
    "validateProduk payload_pen = Inr errors'" "rules_ok payload_pen \<longrightarrow> errors' = []"
    by (elim exE conjE)
  with e have f: "validateProduk payload_pen = Inr []" by simp
  from a b c d e f show ?thesis by (intro conjI)
qed

text \<open>
  The claim as stated fails for a payload whose \<^verbatim>\<open>kode_produk\<close> is a number: \<^verbatim>\<open>!123\<close> is
  false, \<^verbatim>\<open>(123).trim\<close> is not a function, and the validator throws before the name rule
  is reached, so no list is returned although \<^verbatim>\<open>nama_produk\<close> is missing.
\<close>

theorem validateProduk_throws_on_number_counterexample:
  "map_of payload_kode_number ''nama_produk'' = None
   \<and> validateProduk payload_kode_number = Inl TypeError"
  by (simp add: payload_kode_number_def validateProduk_def get_def js_not_def push_if_def)

subsection \<open>Uniqueness of the product code (C2)\<close>

text \<open>
  C2. When a create has succeeded (201), a second create whose payload passes the
  validator and has the same \<^verbatim>\<open>kode_produk\<close> after trimming is answered with 409, and
  nothing is inserted. And an update with a well-formed identifier of an existing
  product, whose payload passes the validator and whose trimmed \<^verbatim>\<open>kode_produk\<close> is that of
  a stored document with another identifier, is answered with 409 and writes nothing.
\<close>

theorem duplicate_kode_is_conflict:
  "(post_produk now nid data s = (r, s1) \<and> status r = 201
      \<and> validateProduk data2 = Inr []
      \<and> call_trim (get data2 ''kode_produk'') = call_trim (get data ''kode_produk'')
    \<longrightarrow> fst (post_produk now2 nid2 data2 s1)
          = reply 409 False ''Kode produk sudah digunakan. Gunakan kode yang berbeda.'' NoContent
        \<and> produk (snd (post_produk now2 nid2 data2 s1)) = produk s1)
   \<and> (ObjectId_isValid i \<and> validateProduk data3 = Inr []
      \<and> filter (has_id i) (produk s) \<noteq> []
      \<and> call_trim (get data3 ''kode_produk'') = Inr kode
      \<and> x \<in> set (produk s) \<and> get x ''kode_produk'' = JStr kode \<and> get x ''_id'' \<noteq> ObjectId i
    \<longrightarrow> fst (put_produk now3 i data3 s)
          = reply 409 False ''Kode produk sudah digunakan oleh produk lain'' NoContent
        \<and> produk (snd (put_produk now3 i data3 s)) = produk s)"
proof (intro conjI impI; elim conjE)
  assume a: "post_produk now nid data s = (r, s1)" "status r = 201"
    and v: "validateProduk data2 = Inr []"
    and e: "call_trim (get data2 ''kode_produk'') = call_trim (get data ''kode_produk'')"
  from post_produk_201[OF a] obtain kode d where
    k: "call_trim (get data ''kode_produk'') = Inr kode"
    and g: "get d ''kode_produk'' = JStr kode" and p: "produk s1 = produk s @ [d]"
    by blast
  have "d \<in> set (docs_of Produk s1)" using p by simp
  moreover have "matches [Where ''kode_produk'' (IsEq (JStr kode))] d"
    using g by (simp add: matches_def)
  ultimately obtain d0 where
    f: "findOne Produk [Where ''kode_produk'' (IsEq (JStr kode))] s1
        = (Some d0, logged (FindOne Produk [Where ''kode_produk'' (IsEq (JStr kode))]) s1)"
    using findOne_found by blast
  show "fst (post_produk now2 nid2 data2 s1)
          = reply 409 False ''Kode produk sudah digunakan. Gunakan kode yang berbeda.'' NoContent"
    "produk (snd (post_produk now2 nid2 data2 s1)) = produk s1"
    using v e k f by (simp_all add: post_produk_def post_produk_try_def)
next
  assume v: "ObjectId_isValid i" "validateProduk data3 = Inr []"
    and t: "filter (has_id i) (produk s) \<noteq> []"
    and k: "call_trim (get data3 ''kode_produk'') = Inr kode"
    and x: "x \<in> set (produk s)" "get x ''kode_produk'' = JStr kode" "get x ''_id'' \<noteq> ObjectId i"
  from t obtain d0 r0 where "filter (has_id i) (produk s) = d0 # r0"
    by (cases "filter (has_id i) (produk s)") auto
  then have f1: "findOne Produk (by_id i) s = (Some d0, logged (FindOne Produk (by_id i)) s)"
    by (simp add: findOne_def find_first_def)
  let ?dup = "[Where ''kode_produk'' (IsEq (JStr kode)), Where ''_id'' (NotEq (ObjectId i))]"
  have "x \<in> set (docs_of Produk (logged (FindOne Produk (by_id i)) s))" using x(1) by simp
  moreover have "matches ?dup x" using x(2,3) by (simp add: matches_def)
  ultimately obtain d1 where
    f2: "findOne Produk ?dup (logged (FindOne Produk (by_id i)) s)
        = (Some d1, logged (FindOne Produk ?dup) (logged (FindOne Produk (by_id i)) s))"
    using findOne_found by blast
  show "fst (put_produk now3 i data3 s)
          = reply 409 False ''Kode produk sudah digunakan oleh produk lain'' NoContent"
    "produk (snd (put_produk now3 i data3 s)) = produk s"
    using v k f1 f2 by (simp_all add: put_produk_def put_produk_try_def)
qed

theorem duplicate_kode_is_conflict_witness:
  "status (fst (post_produk 3000 id_new1 payload_p3 db_sample)) = 201
   \<and> validateProduk payload_p3_spaced = Inr []
   \<and> call_trim (get payload_p3_spaced ''kode_produk'') = call_trim (get payload_p3 ''kode_produk'')
   \<and> fst (post_produk 4000 id_new2 payload_p3_spaced
            (snd (post_produk 3000 id_new1 payload_p3 db_sample)))
       = reply 409 False ''Kode produk sudah digunakan. Gunakan kode yang berbeda.'' NoContent
   \<and> ObjectId_isValid id_produk1 \<and> validateProduk payload_p2 = Inr []
   \<and> filter (has_id id_produk1) (produk db_sample) = [produk1]
   \<and> call_trim (get payload_p2 ''kode_produk'') = Inr ''P2''
   \<and> produk2 \<in> set (produk db_sample) \<and> get produk2 ''kode_produk'' = JStr ''P2''
   \<and> get produk2 ''_id'' \<noteq> ObjectId id_produk1
   \<and> fst (put_produk 5000 id_produk1 payload_p2 db_sample)
       = reply 409 False ''Kode produk sudah digunakan oleh produk lain'' NoContent"
proof -
  have a1: "status (fst (post_produk 3000 id_new1 payload_p3 db_sample)) = 201"
    by (simp add: eval_post eval_validate eval_store sample_defs payload_p3_def id_new1_def)
  have a2: "validateProduk payload_p3_spaced = Inr []"
    by (simp add: payload_p3_spaced_def eval_validate)
  have a3: "call_trim (get payload_p3_spaced ''kode_produk'')
            = call_trim (get payload_p3 ''kode_produk'')"
    by (simp add: payload_p3_spaced_def payload_p3_def get_def trim_def isWhiteSpace_def)
  have b1: "ObjectId_isValid id_produk1"
    by (simp add: id_produk1_def ObjectId_isValid_def isHexDigit_def hexDigit_def)
  have b2: "validateProduk payload_p2 = Inr []"
    by (simp add: payload_p2_def eval_validate)
  have b3: "filter (has_id id_produk1) (produk db_sample) = [produk1]"
    by (simp add: sample_defs id_eval)
  have b4: "call_trim (get payload_p2 ''kode_produk'') = Inr ''P2''"
    by (simp add: payload_p2_def get_def trim_def isWhiteSpace_def)
  have b5: "produk2 \<in> set (produk db_sample)" by (simp add: db_sample_def)
  have b6: "get produk2 ''kode_produk'' = JStr ''P2''" by (simp add: produk2_def get_def)
  have b7: "get produk2 ''_id'' \<noteq> ObjectId id_produk1"
    by (simp add: sample_defs id_eval)
  note t = duplicate_kode_is_conflict[where now = 3000 and nid = id_new1 and data = payload_p3
      and s = db_sample and r = "fst (post_produk 3000 id_new1 payload_p3 db_sample)"
      and ?s1.0 = "snd (post_produk 3000 id_new1 payload_p3 db_sample)"
      and ?data2.0 = payload_p3_spaced and ?now2.0 = 4000 and ?nid2.0 = id_new2
      and i = id_produk1 and ?data3.0 = payload_p2 and kode = "''P2''" and x = produk2
      and ?now3.0 = 5000]
  from t a1 a2 a3 have c1: "fst (post_produk 4000 id_new2 payload_p3_spaced
            (snd (post_produk 3000 id_new1 payload_p3 db_sample)))
       = reply 409 False ''Kode produk sudah digunakan. Gunakan kode yang berbeda.'' NoContent"
    by simp
  from t b1 b2 b3 b4 b5 b6 b7 have c2: "fst (put_produk 5000 id_produk1 payload_p2 db_sample)
       = reply 409 False ''Kode produk sudah digunakan oleh produk lain'' NoContent"
    by simp
  from a1 a2 a3 c1 b1 b2 b3 b4 b5 b6 b7 c2 show ?thesis by (intro conjI)
qed

subsection \<open>Pagination (C3)\<close>




text \<open>
  Above \<open>2^53\<close> the page is rounded when it is read: \<^verbatim>\<open>page=9007199254740993\<close> is the page
  \<open>9007199254740992\<close> for the handler, and the skip is one less.
\<close>

lemma to_double_above_2_53: "to_double 9007199254740993 = Fin 9007199254740992"
proof -
  have l: "log2floor 9007199254740993 = 53" by (simp add: log2floor.simps)
  have b: "binade 9007199254740993 = 53" using l by (simp add: binade_def)
  have "\<lfloor>9007199254740993 / 2 :: rat\<rfloor> = 4503599627370496" by (simp add: floor_eq_iff)
  then have r: "round_half_even (9007199254740993 / 2) = 4503599627370496"
    by (simp add: round_half_even_def Let_def)
  show ?thesis by (simp add: to_double_def Let_def b pow2_def r)
qed

lemma page_above_2_53_is_rounded:
  "pageNum_of query_page_big = Fin 9007199254740992
   \<and> status (fst (get_posts query_page_big db_sample)) = 200
   \<and> ops (snd (get_posts query_page_big db_sample)) =
        [Find Posts [] ''_id'' (Some (Fin 9007199254740991)) (Fin 1), CountDocuments Posts []]"
proof -
  have a: "pageNum_of query_page_big = Fin (of_int 9007199254740992)"
    "limitNum_of query_page_big = Fin (of_int 1)"
    by (simp_all add: query_page_big_def eval_parse to_double_above_2_53)
  have f: "posts_list_filter query_page_big = []"
    by (simp add: posts_list_filter_def query_page_big_def param_def)
  have b: "(1::int) \<le> 9007199254740992" "(1::int) \<le> 1"
    "(9007199254740992 - 1) * (1::int) \<le> 2 ^ 53" by simp_all
  show ?thesis
    unfolding get_posts_page[OF a(1) b(1) a(2) b(2) b(3)] f using a
    by (simp add: reply_def logged_def db_sample_def)
qed

subsection \<open>Malformed identifiers (C4)\<close>

text \<open>
  C4. In each of the six handlers that take an identifier (get, update and delete, of
  posts and of products), a string that \<^verbatim>\<open>ObjectId.isValid\<close> refuses is answered with
  status 400, and the state afterwards is the state before, the log of operations
  included: the handler has issued no operation against the store.
\<close>

theorem malformed_id_never_reaches_store:
  assumes "\<not> ObjectId_isValid i"
  shows "get_posts_id i s = (reply 400 False ''ID post tidak valid'' NoContent, s)
     \<and> put_posts_id now i body s = (reply 400 False ''ID post tidak valid'' NoContent, s)
     \<and> delete_posts_id i s = (reply 400 False ''ID post tidak valid'' NoContent, s)
     \<and> get_produk_id i s =
         (reply 400 False ''ID produk tidak valid. Gunakan format ObjectId yang benar.'' NoContent, s)
     \<and> put_produk now i body s = (reply 400 False ''ID produk tidak valid'' NoContent, s)
     \<and> delete_produk_id i s = (reply 400 False ''ID produk tidak valid'' NoContent, s)"
  using assms
  by (simp add: get_posts_id_def put_posts_id_def delete_posts_id_def get_produk_id_def
      put_produk_def put_produk_try_def delete_produk_id_def)

theorem malformed_id_never_reaches_store_witness:
  "\<not> ObjectId_isValid ''123''
   \<and> get_posts_id ''123'' db_sample = (reply 400 False ''ID post tidak valid'' NoContent, db_sample)
   \<and> delete_produk_id ''123'' db_sample = (reply 400 False ''ID produk tidak valid'' NoContent, db_sample)
   \<and> status (fst (put_produk 5000 ''123'' payload_no_nama db_sample)) = 400
   \<and> ops (snd (put_produk 5000 ''123'' payload_no_nama db_sample)) = []"
proof -
  have a: "\<not> ObjectId_isValid ''123''" by (simp add: ObjectId_isValid_def)
  have b: "ops db_sample = []" by (simp add: db_sample_def)
  from malformed_id_never_reaches_store[OF a, of db_sample 5000 payload_no_nama] a b
  show ?thesis by (simp add: reply_def)
qed

subsection \<open>Update without a change (C5)\<close>

text \<open>
  C5 at its failing input. The first product of the sample database holds exactly the
  field values of the payload, stamped at time 1000. An update with these values at time
  5000 is answered with 200, not with 400: the update data carries the new
  \<^verbatim>\<open>tanggal_diupdate\<close>, so the store reports one modified document. Only a request in the
  very millisecond of the stored stamp reaches the ``no change'' answer.
\<close>

theorem put_with_stored_values_is_accepted:
  "filter (has_id id_produk1) (produk db_sample) = [produk1]
   \<and> produk_fields payload_pen = Inr (take 7 (tl produk1))
   \<and> fst (put_produk 5000 id_produk1 payload_pen db_sample)
       = reply 200 True ''Produk berhasil diupdate''
           (Data (Some (set_field ''tanggal_diupdate'' (JDate (Some 5000)) produk1)))
   \<and> fst (put_produk 1000 id_produk1 payload_pen db_sample)
       = reply 400 False ''Tidak ada perubahan data atau data sama dengan sebelumnya'' NoContent"
  by (simp add: eval_all payload_pen_def and_then_Inr_iff)

subsection \<open>The stock rule (C6)\<close>

text \<open>
  C6 (as amended). Whenever the validator returns a list: a \<^verbatim>\<open>stok\<close> that is absent
  (undefined), not numeric for \<^verbatim>\<open>isNaN\<close>, or a number of at most \<open>-1\<close> gets the stock message,
  so the list is never empty for such a payload; and a \<^verbatim>\<open>stok\<close> that is an integer number
  from zero never gets the message. That the value is an integer is not checked:
  \<^verbatim>\<open>parseInt\<close> drops the fraction.
\<close>

theorem validateProduk_stok_rule:
  assumes "validateProduk data = Inr errors"
  shows "(stok_rejected (get data ''stok'') \<longrightarrow> msg_stok \<in> set errors \<and> errors \<noteq> [])
       \<and> (nonneg_integer (get data ''stok'') \<longrightarrow> msg_stok \<notin> set errors)"
  using validateProduk_stok_msg[OF assms] stok_rejected_cond[of data]
    nonneg_integer_accepted[of data]
  by auto

theorem validateProduk_stok_rule_witness:
  "validateProduk payload_stok_negative = Inr [msg_stok]
   \<and> stok_rejected (get payload_stok_negative ''stok'')
   \<and> msg_stok \<in> set [msg_stok] \<and> [msg_stok] \<noteq> []
   \<and> validateProduk payload_pen = Inr []
   \<and> nonneg_integer (get payload_pen ''stok'')
   \<and> msg_stok \<notin> set []"
proof -
  have a: "validateProduk payload_stok_negative = Inr [msg_stok]"
    by (simp add: payload_stok_negative_def eval_validate)
  have b: "stok_rejected (get payload_stok_negative ''stok'')"
    by (simp add: payload_stok_negative_def get_def)
  have c: "validateProduk payload_pen = Inr []"
    by (simp add: payload_pen_def eval_validate)
  have d: "nonneg_integer (get payload_pen ''stok'')"
    by (simp add: payload_pen_def get_def)
  from validateProduk_stok_rule[OF a] validateProduk_stok_rule[OF c] a b c d
  show ?thesis by simp
qed

text \<open>
  The claim as stated fails for the stock \<open>1.5\<close>: \<^verbatim>\<open>isNaN(1.5)\<close> is false and
  \<^verbatim>\<open>parseInt(1.5)\<close> is \<open>1\<close>, so a payload that is otherwise in order gets the empty list.
\<close>

theorem validateProduk_accepts_fraction_counterexample:
  "get payload_stok_fraction ''stok'' = JNum (Fin (3 / 2))
   \<and> \<not> nonneg_integer (get payload_stok_fraction ''stok'')
   \<and> validateProduk payload_stok_fraction = Inr []"
proof -
  have "\<lfloor>3 / 2 :: rat\<rfloor> = 1" by (simp add: floor_eq_iff)
  then show ?thesis by (simp add: payload_stok_fraction_def eval_validate)
qed

subsection \<open>What an update writes (C7)\<close>

text \<open>
  C7. When \<^verbatim>\<open>PUT /api/produk/:id\<close> answers 200, the stored document \<open>d\<close> with that identifier
  has been replaced in its place by \<open>d'\<close>, which is also the document returned: \<open>d'\<close> has
  the identifier and the creation timestamp \<^verbatim>\<open>tanggal_dibuat\<close> of \<open>d\<close>, its
  \<^verbatim>\<open>tanggal_diupdate\<close> is the time of the request, and every field outside the eight keys of
  the update data is as in \<open>d\<close>. No other document of either collection is touched.
\<close>

theorem update_writes_only_the_update_fields:
  assumes "put_produk now i data s = (r, s')" and "status r = 200"
  shows "\<exists>d d' before after.
           produk s = before @ d # after \<and> has_id i d \<and> filter (has_id i) before = []
         \<and> produk s' = before @ d' # after \<and> posts s' = posts s
         \<and> content r = Data (Some d')
         \<and> get d' ''_id'' = get d ''_id''
         \<and> get d' ''tanggal_dibuat'' = get d ''tanggal_dibuat''
         \<and> get d' ''tanggal_diupdate'' = JDate (Some now)
         \<and> (\<forall>k. k \<notin> set update_keys \<longrightarrow> get d' k = get d k)"
proof -
  from put_produk_200[OF assms] obtain flds d before after where
    f: "produk_fields data = Inr flds"
    and sp: "produk s = before @ d # after" "has_id i d" "filter (has_id i) before = []"
    and idk: "get (set_fields (flds @ [(''tanggal_diupdate'', JDate (Some now))]) d) ''_id'' = get d ''_id''"
    and s': "produk s' = before @ set_fields (flds @ [(''tanggal_diupdate'', JDate (Some now))]) d # after"
      "posts s' = posts s"
    and r: "r = reply 200 True ''Produk berhasil diupdate''
                 (Data (Some (set_fields (flds @ [(''tanggal_diupdate'', JDate (Some now))]) d)))"
    by blast
  let ?d' = "set_fields (flds @ [(''tanggal_diupdate'', JDate (Some now))]) d"
  have "map fst flds @ [''tanggal_diupdate''] = update_keys"
    by (simp add: update_keys_def produk_fields_keys(1)[OF f])
  moreover have "fst ` set (flds @ [(''tanggal_diupdate'', JDate (Some now))])
                  = set (map fst flds @ [''tanggal_diupdate''])"
    by simp
  ultimately have keys:
    "fst ` set (flds @ [(''tanggal_diupdate'', JDate (Some now))]) = set update_keys"
    by simp
  have other: "get ?d' k = get d k" if "k \<notin> set update_keys" for k
    using that keys by (intro get_set_fields_other) simp
  have "get ?d' ''tanggal_dibuat'' = get d ''tanggal_dibuat''"
    by (rule other) (simp add: update_keys_def)
  moreover have "get ?d' ''tanggal_diupdate'' = JDate (Some now)"
    by (rule get_set_fields_last)
  moreover have "content r = Data (Some ?d')" by (simp add: r reply_def)
  ultimately show ?thesis using sp s' idk other by blast
qed

theorem update_writes_only_the_update_fields_witness:
  "status (fst (put_produk 5000 id_produk1 payload_pen_7 db_sample)) = 200
   \<and> (\<exists>d d' before after.
           produk db_sample = before @ d # after \<and> has_id id_produk1 d
         \<and> filter (has_id id_produk1) before = []
         \<and> produk (snd (put_produk 5000 id_produk1 payload_pen_7 db_sample)) = before @ d' # after
         \<and> get d' ''_id'' = get d ''_id''
         \<and> get d' ''tanggal_dibuat'' = get d ''tanggal_dibuat''
         \<and> get d' ''tanggal_diupdate'' = JDate (Some 5000)
         \<and> get d' ''status'' = get d ''status'')"
proof -
  have k: "''status'' \<notin> set update_keys" by (simp add: update_keys_def)
  have st: "status (fst (put_produk 5000 id_produk1 payload_pen_7 db_sample)) = 200"
    by (simp add: eval_all payload_pen_7_def)
  from update_writes_only_the_update_fields[OF prod.collapse[symmetric] st]
  obtain d d' before after where
    "produk db_sample = before @ d # after" "has_id id_produk1 d"
    "filter (has_id id_produk1) before = []"
    "produk (snd (put_produk 5000 id_produk1 payload_pen_7 db_sample)) = before @ d' # after"
    "get d' ''_id'' = get d ''_id''"
    "get d' ''tanggal_dibuat'' = get d ''tanggal_dibuat''"
    "get d' ''tanggal_diupdate'' = JDate (Some 5000)"
    "\<forall>k. k \<notin> set update_keys \<longrightarrow> get d' k = get d k"
    by blast
  then have "\<exists>d d' before after.
           produk db_sample = before @ d # after \<and> has_id id_produk1 d
         \<and> filter (has_id id_produk1) before = []
         \<and> produk (snd (put_produk 5000 id_produk1 payload_pen_7 db_sample)) = before @ d' # after
         \<and> get d' ''_id'' = get d ''_id''
         \<and> get d' ''tanggal_dibuat'' = get d ''tanggal_dibuat''
         \<and> get d' ''tanggal_diupdate'' = JDate (Some 5000)
         \<and> get d' ''status'' = get d ''status''"
    using k by blast
  with st show ?thesis by (rule conjI)
qed

subsection \<open>Delete (C8)\<close>

text \<open>
  C8. For a delete request with a well-formed identifier, on posts and on products alike:
  when no document of the collection carries the identifier, the answer is 404 with
  \<^verbatim>\<open>success: false\<close> and both collections are as before; when \<open>d\<close> is the (first) document
  that carries it, the answer is 200 with \<open>d\<close> as \<^verbatim>\<open>deleted_data\<close>, exactly that document is
  taken out of the collection, and the other collection is as before.
\<close>

theorem delete_removes_the_document:
  assumes "ObjectId_isValid i"
  shows "(filter (has_id i) (posts s) = [] \<longrightarrow>
            fst (delete_posts_id i s) = reply 404 False ''Post tidak ditemukan'' NoContent
            \<and> posts (snd (delete_posts_id i s)) = posts s
            \<and> produk (snd (delete_posts_id i s)) = produk s)
       \<and> (\<forall>d r. filter (has_id i) (posts s) = d # r \<longrightarrow>
            fst (delete_posts_id i s) = reply 200 True ''Post berhasil dihapus'' (DeletedData d)
            \<and> (\<exists>before after. posts s = before @ d # after
                  \<and> posts (snd (delete_posts_id i s)) = before @ after)
            \<and> produk (snd (delete_posts_id i s)) = produk s)
       \<and> (filter (has_id i) (produk s) = [] \<longrightarrow>
            fst (delete_produk_id i s) = reply 404 False ''Produk tidak ditemukan'' NoContent
            \<and> produk (snd (delete_produk_id i s)) = produk s
            \<and> posts (snd (delete_produk_id i s)) = posts s)
       \<and> (\<forall>d r. filter (has_id i) (produk s) = d # r \<longrightarrow>
            fst (delete_produk_id i s) = reply 200 True ''Produk berhasil dihapus'' (DeletedData d)
            \<and> (\<exists>before after. produk s = before @ d # after
                  \<and> produk (snd (delete_produk_id i s)) = before @ after)
            \<and> posts (snd (delete_produk_id i s)) = posts s)"
proof (intro conjI allI impI)
  assume n: "filter (has_id i) (posts s) = []"
  then have f: "findOne Posts (by_id i) s = (None, logged (FindOne Posts (by_id i)) s)"
    by (intro delete_by_id(1)) simp
  show "fst (delete_posts_id i s) = reply 404 False ''Post tidak ditemukan'' NoContent"
    "posts (snd (delete_posts_id i s)) = posts s" "produk (snd (delete_posts_id i s)) = produk s"
    using assms by (simp_all add: delete_posts_id_def f)
next
  assume n: "filter (has_id i) (produk s) = []"
  then have f: "findOne Produk (by_id i) s = (None, logged (FindOne Produk (by_id i)) s)"
    by (intro delete_by_id(1)) simp
  show "fst (delete_produk_id i s) = reply 404 False ''Produk tidak ditemukan'' NoContent"
    "produk (snd (delete_produk_id i s)) = produk s" "posts (snd (delete_produk_id i s)) = posts s"
    using assms by (simp_all add: delete_produk_id_def f)
next
  fix d r assume m: "filter (has_id i) (posts s) = d # r"
  then have m': "filter (has_id i) (docs_of Posts s) = d # r" by simp
  note f = delete_by_id(2)[OF m', of "FindOne Posts (by_id i)"]
  show "fst (delete_posts_id i s) = reply 200 True ''Post berhasil dihapus'' (DeletedData d)"
    "produk (snd (delete_posts_id i s)) = produk s"
    using assms by (simp_all add: delete_posts_id_def f)
  from filter_eq_Cons_split[OF m] obtain before after where
    sp: "posts s = before @ d # after" "has_id i d" "filter (has_id i) before = []" by blast
  have "posts (snd (delete_posts_id i s)) = remove_first (has_id i) (posts s)"
    using assms by (simp add: delete_posts_id_def f)
  also have "\<dots> = before @ after"
    unfolding sp(1) by (rule remove_first_split[OF sp(3) sp(2)])
  finally show "\<exists>before after. posts s = before @ d # after
                  \<and> posts (snd (delete_posts_id i s)) = before @ after"
    using sp(1) by blast
next
  fix d r assume m: "filter (has_id i) (produk s) = d # r"
  then have m': "filter (has_id i) (docs_of Produk s) = d # r" by simp
  note f = delete_by_id(2)[OF m', of "FindOne Produk (by_id i)"]
  show "fst (delete_produk_id i s) = reply 200 True ''Produk berhasil dihapus'' (DeletedData d)"
    "posts (snd (delete_produk_id i s)) = posts s"
    using assms by (simp_all add: delete_produk_id_def f)
  from filter_eq_Cons_split[OF m] obtain before after where
    sp: "produk s = before @ d # after" "has_id i d" "filter (has_id i) before = []" by blast
  have "produk (snd (delete_produk_id i s)) = remove_first (has_id i) (produk s)"
    using assms by (simp add: delete_produk_id_def f)
  also have "\<dots> = before @ after"
    unfolding sp(1) by (rule remove_first_split[OF sp(3) sp(2)])
  finally show "\<exists>before after. produk s = before @ d # after
                  \<and> produk (snd (delete_produk_id i s)) = before @ after"
    using sp(1) by blast
qed

theorem delete_removes_the_document_witness:
  "ObjectId_isValid id_post1
   \<and> filter (has_id id_post1) (posts db_sample) = [post1]
   \<and> fst (delete_posts_id id_post1 db_sample)
       = reply 200 True ''Post berhasil dihapus'' (DeletedData post1)
   \<and> filter (has_id id_post1) (produk db_sample) = []
   \<and> fst (delete_produk_id id_post1 db_sample)
       = reply 404 False ''Produk tidak ditemukan'' NoContent
   \<and> produk (snd (delete_produk_id id_post1 db_sample)) = [produk1, produk2]
   \<and> ObjectId_isValid id_produk2
   \<and> filter (has_id id_produk2) (posts db_sample) = []
   \<and> fst (delete_posts_id id_produk2 db_sample)
       = reply 404 False ''Post tidak ditemukan'' NoContent
   \<and> filter (has_id id_produk2) (produk db_sample) = [produk2]
   \<and> fst (delete_produk_id id_produk2 db_sample)
       = reply 200 True ''Produk berhasil dihapus'' (DeletedData produk2)"
proof -
  have v: "ObjectId_isValid id_post1"
    by (simp add: id_post1_def ObjectId_isValid_def isHexDigit_def hexDigit_def)
  have a: "filter (has_id id_post1) (posts db_sample) = [post1]"
    by (simp add: sample_defs id_eval)
  have b: "filter (has_id id_post1) (produk db_sample) = []"
    by (simp add: sample_defs id_eval)
  have c: "produk db_sample = [produk1, produk2]"
    by (simp add: db_sample_def)
  have v2: "ObjectId_isValid id_produk2"
    by (simp add: id_produk2_def ObjectId_isValid_def isHexDigit_def hexDigit_def)
  have a2: "filter (has_id id_produk2) (posts db_sample) = []"
    by (simp add: sample_defs id_eval)
  have b2: "filter (has_id id_produk2) (produk db_sample) = [produk2]"
    by (simp add: sample_defs id_eval)
  from delete_removes_the_document[OF v, of db_sample] a b c
  have r1: "fst (delete_posts_id id_post1 db_sample)
       = reply 200 True ''Post berhasil dihapus'' (DeletedData post1)"
    "fst (delete_produk_id id_post1 db_sample)
       = reply 404 False ''Produk tidak ditemukan'' NoContent"
    "produk (snd (delete_produk_id id_post1 db_sample)) = [produk1, produk2]"
    by simp_all
  from delete_removes_the_document[OF v2, of db_sample] a2 b2
  have r2: "fst (delete_posts_id id_produk2 db_sample)
       = reply 404 False ''Post tidak ditemukan'' NoContent"
    "fst (delete_produk_id id_produk2 db_sample)
       = reply 200 True ''Produk berhasil dihapus'' (DeletedData produk2)"
    by simp_all
  from v a b r1 v2 a2 b2 r2 show ?thesis by (intro conjI)
qed

subsection \<open>Invalid dates in the advanced search (C9)\<close>




subsection \<open>Bounds on the number of results (C10)\<close>

text \<open>
  C10. An advanced search returns at most 50 posts and at most 100 products, newest
  first: when it answers 200, the first 50 (100) of the matching documents in descending
  order of \<^verbatim>\<open>_id\<close> (\<^verbatim>\<open>tanggal_dibuat\<close>). The list endpoints have no such bound: on the first page, with a
  page size \<open>L\<close> from 1 up, they return the first \<open>L\<close> matching documents, as many as
  there are up to \<open>L\<close>, whatever \<open>L\<close> is.
\<close>

theorem search_results_are_bounded:
  "length (returned (fst (get_posts_search_advanced Date_parse q s))) \<le> 50
   \<and> newest_first ''_id'' (returned (fst (get_posts_search_advanced Date_parse q s)))
   \<and> (status (fst (get_posts_search_advanced Date_parse q s)) = 200 \<longrightarrow>
        returned (fst (get_posts_search_advanced Date_parse q s))
          = take 50 (sort_desc ''_id''
              (filter (matches (posts_advanced_filter Date_parse q)) (posts s))))
   \<and> length (returned (fst (get_produk_search_advanced q s))) \<le> 100
   \<and> newest_first ''tanggal_dibuat'' (returned (fst (get_produk_search_advanced q s)))
   \<and> (status (fst (get_produk_search_advanced q s)) = 200 \<longrightarrow>
        returned (fst (get_produk_search_advanced q s))
          = take 100 (sort_desc ''tanggal_dibuat''
              (filter (matches (produk_advanced_filter q)) (produk s))))
   \<and> (pageNum_of q' = Fin (of_int 1) \<and> limitNum_of q' = Fin (of_int L) \<and> 1 \<le> L \<longrightarrow>
        returned (fst (get_posts q' s))
          = take (nat L) (sort_desc ''_id'' (filter (matches (posts_list_filter q')) (posts s)))
        \<and> length (returned (fst (get_posts q' s)))
          = min (nat L) (length (filter (matches (posts_list_filter q')) (posts s)))
        \<and> returned (fst (get_produk q' s))
          = take (nat L) (sort_desc ''tanggal_dibuat''
              (filter (matches (produk_list_filter q')) (produk s)))
        \<and> length (returned (fst (get_produk q' s)))
          = min (nat L) (length (filter (matches (produk_list_filter q')) (produk s))))"
proof (intro conjI impI)
  show "length (returned (fst (get_posts_search_advanced Date_parse q s))) \<le> 50"
    "newest_first ''_id'' (returned (fst (get_posts_search_advanced Date_parse q s)))"
    using posts_search_cases[of Date_parse q s] by (auto simp: returned_def reply_def)
  show "returned (fst (get_posts_search_advanced Date_parse q s))
          = take 50 (sort_desc ''_id''
              (filter (matches (posts_advanced_filter Date_parse q)) (posts s)))"
    if "status (fst (get_posts_search_advanced Date_parse q s)) = 200"
    using posts_search_cases[of Date_parse q s] that by (auto simp: returned_def reply_def)
  show "length (returned (fst (get_produk_search_advanced q s))) \<le> 100"
    "newest_first ''tanggal_dibuat'' (returned (fst (get_produk_search_advanced q s)))"
    using produk_search_cases[of q s] by (auto simp: returned_def reply_def)
  show "returned (fst (get_produk_search_advanced q s))
          = take 100 (sort_desc ''tanggal_dibuat''
              (filter (matches (produk_advanced_filter q)) (produk s)))"
    if "status (fst (get_produk_search_advanced q s)) = 200"
    using produk_search_cases[of q s] that by (auto simp: returned_def reply_def)
next
  assume h: "pageNum_of q' = Fin (of_int 1) \<and> limitNum_of q' = Fin (of_int L) \<and> 1 \<le> L"
  then have a: "pageNum_of q' = Fin (of_int 1)" "(1::int) \<le> 1"
    "limitNum_of q' = Fin (of_int L)" "1 \<le> L" "(1 - 1) * L \<le> 2 ^ 53" by simp_all
  show "returned (fst (get_posts q' s))
          = take (nat L) (sort_desc ''_id'' (filter (matches (posts_list_filter q')) (posts s)))"
    "length (returned (fst (get_posts q' s)))
          = min (nat L) (length (filter (matches (posts_list_filter q')) (posts s)))"
    unfolding get_posts_page[OF a]
    by (simp_all add: returned_def reply_def sort_desc_def min.commute)
  show "returned (fst (get_produk q' s))
          = take (nat L) (sort_desc ''tanggal_dibuat''
              (filter (matches (produk_list_filter q')) (produk s)))"
    "length (returned (fst (get_produk q' s)))
          = min (nat L) (length (filter (matches (produk_list_filter q')) (produk s)))"
    unfolding get_produk_page[OF a]
    by (simp_all add: returned_def reply_def sort_desc_def min.commute)
qed

theorem search_results_are_bounded_witness:
  "status (fst (get_posts_search_advanced iso_date_parse query_title db_sample)) = 200
   \<and> returned (fst (get_posts_search_advanced iso_date_parse query_title db_sample))
       = [post2, post1]
   \<and> status (fst (get_produk_search_advanced query_kategori db_sample)) = 200
   \<and> returned (fst (get_produk_search_advanced query_kategori db_sample)) = [produk2, produk1]
   \<and> pageNum_of query_limit2 = Fin (of_int 1) \<and> limitNum_of query_limit2 = Fin (of_int 2)
   \<and> (1::int) \<le> 2
   \<and> returned (fst (get_posts query_limit2 db_sample)) = [post2, post1]
   \<and> length (returned (fst (get_produk query_limit2 db_sample))) = 2"
proof -
  have a: "status (fst (get_posts_search_advanced iso_date_parse query_title db_sample)) = 200"
    by (simp add: eval_search query_title_def)
  have b: "status (fst (get_produk_search_advanced query_kategori db_sample)) = 200"
    by (simp add: eval_search query_kategori_def)
  have c: "pageNum_of query_limit2 = Fin (of_int 1)" "limitNum_of query_limit2 = Fin (of_int 2)"
    by (simp_all add: query_limit2_def eval_parse)
  have d: "(1::int) \<le> 2" by simp
  have f1: "filter (matches (posts_advanced_filter iso_date_parse query_title)) (posts db_sample)
            = [post1, post2]"
    by (simp add: posts_advanced_filter_def query_title_def param_def matches_def get_def
        lowerChar_def sample_defs eval_char)
  have f2: "filter (matches (produk_advanced_filter query_kategori)) (produk db_sample)
            = [produk1, produk2]"
    by (simp add: produk_advanced_filter_def harga_range_def query_kategori_def param_def
        matches_def get_def lowerChar_def sample_defs eval_char)
  have f3: "filter (matches (posts_list_filter query_limit2)) (posts db_sample) = [post1, post2]"
    by (simp add: posts_list_filter_def query_limit2_def param_def matches_def db_sample_def)
  have f4: "filter (matches (produk_list_filter query_limit2)) (produk db_sample)
            = [produk1, produk2]"
    by (simp add: produk_list_filter_def harga_range_def query_limit2_def param_def matches_def
        db_sample_def)
  have s1: "sort_desc ''_id'' [post1, post2] = [post2, post1]"
    by (simp add: eval_sort post1_def post2_def id_post1_def id_post2_def)
  have s2: "sort_desc ''tanggal_dibuat'' [produk1, produk2] = [produk2, produk1]"
    by (simp add: eval_sort produk1_def produk2_def date_ms_def)
  note t = search_results_are_bounded[where Date_parse = iso_date_parse and q = query_title
      and s = db_sample and q' = query_limit2 and L = 2]
  note u = search_results_are_bounded[where q = query_kategori and s = db_sample]
  from t a have r1: "returned (fst (get_posts_search_advanced iso_date_parse query_title db_sample))
       = [post2, post1]"
    unfolding f1 s1 by simp
  from u b have r2: "returned (fst (get_produk_search_advanced query_kategori db_sample))
       = [produk2, produk1]"
    unfolding f2 s2 by simp
  from t c d have r3: "returned (fst (get_posts query_limit2 db_sample)) = [post2, post1]"
    and r4: "length (returned (fst (get_produk query_limit2 db_sample))) = 2"
    unfolding f3 f4 s1 s2 by simp_all
  from a r1 b r2 c d r3 r4 show ?thesis by (intro conjI)
qed

end
